theory Spec2Isabelle
  imports Complex_Main "HOL-Library.Word" "HOL-Library.AList"
begin

unbundle bit_operations_syntax

section \<open>Identifiers and errors\<close>

type_synonym TaskID = string
type_synonym JobID = string
type_synonym QueueID = string
type_synonym ResourceName = string

text \<open>
  Every error return of the modelled Go code is a value. \<open>FatalExit\<close> stands for
  \<^verbatim>\<open>glog.Fatalf\<close>, which ends the process: the call does not return to its caller.
\<close>

datatype error =
    TaskOnDifferentNode
  | TaskAlreadyOnNode
  | SelectedNodeNotReady
  | TaskNotFoundOnHost
  | FatalExit
  | InvalidStatusUpdate
  | JobNotFound
  | TaskNotFoundInJob
  | HostNotFound
  | VolumeError
  | ConvertError
  | InvalidPodGroupVersion
  | NilDereference

section \<open>Resource vectors (pkg/scheduler/api, resource\_info.go)\<close>

text \<open>
  Modelled from the spec: the file defining \<^verbatim>\<open>Resource\<close> is not among the sources (only
  its test is). The spec gives \<^verbatim>\<open>{MilliCPU: int64, Memory: int64, Scalars: name -> float64}\<close>
  with exact arithmetic and absent scalars treated as zero. The two int64 fields are 64-bit
  words (addition and subtraction wrap); the scalar mapping is the total function that
  returns zero for an absent name, over the reals (exact arithmetic).
\<close>

record Resource =
  MilliCPU :: "64 word"
  Memory :: "64 word"
  ScalarResources :: "ResourceName \<Rightarrow> real"

text \<open>Modelled from the spec: \<^verbatim>\<open>EmptyResource()\<close>, the zero vector.\<close>

definition EmptyResource :: Resource where
  "EmptyResource = \<lparr>MilliCPU = 0, Memory = 0, ScalarResources = (\<lambda>_. 0)\<rparr>"

text \<open>Modelled from the spec: \<^verbatim>\<open>Clone\<close> yields an independent instance with the same contents.\<close>

definition Clone :: "Resource \<Rightarrow> Resource" where
  "Clone r = r"

text \<open>
  Modelled from the spec: \<^verbatim>\<open>r.Add(rr)\<close> adds per dimension. The Go method updates its
  receiver in place and returns it; the model returns the receiver's new value.
\<close>

definition Add :: "Resource \<Rightarrow> Resource \<Rightarrow> Resource" where
  "Add r rr =
     \<lparr>MilliCPU = MilliCPU r + MilliCPU rr,
      Memory = Memory r + Memory rr,
      ScalarResources = (\<lambda>n. ScalarResources r n + ScalarResources rr n)\<rparr>"

text \<open>
  Modelled from the spec: \<^verbatim>\<open>r.Sub(rr)\<close> subtracts per dimension, exactly (the spec asks
  for no saturation; callers keep the result non-negative).
\<close>

definition Sub :: "Resource \<Rightarrow> Resource \<Rightarrow> Resource" where
  "Sub r rr =
     \<lparr>MilliCPU = MilliCPU r - MilliCPU rr,
      Memory = Memory r - Memory rr,
      ScalarResources = (\<lambda>n. ScalarResources r n - ScalarResources rr n)\<rparr>"

text \<open>
  \<^verbatim>\<open>Resource.LessEqual\<close> is not among the sources either, and its test
  (\<^verbatim>\<open>TestLessEqual\<close>) expects \<^verbatim>\<open>{MilliCPU: 4, Memory: 4000, scalar1: 1}\<close> to be
  less-equal the empty resource, which the spec's \<open>\<forall>dim. a \<le> b\<close> does not give. The
  comparison is therefore a parameter \<open>le\<close> of every function that calls it, and the
  theorems hold for every comparison. \<open>LessEqualOn\<close> is the spec's wording (signed
  comparison of the int64 fields, scalars compared on the names listed); it instantiates
  \<open>le\<close> at concrete inputs.
\<close>

type_synonym LessEqualFn = "Resource \<Rightarrow> Resource \<Rightarrow> bool"

text \<open>Modelled from the spec: \<^verbatim>\<open>LessEqual\<close> as "for all dimensions, a \<open>\<le>\<close> b".\<close>

definition LessEqualOn :: "ResourceName list \<Rightarrow> LessEqualFn" where
  "LessEqualOn names r rr \<longleftrightarrow>
     MilliCPU r \<le>s MilliCPU rr \<and> Memory r \<le>s Memory rr \<and>
     list_all (\<lambda>n. ScalarResources r n \<le> ScalarResources rr n) names"

section \<open>Tasks and nodes (pkg/scheduler/api/node\_info.go)\<close>

datatype TaskStatus =
  Pending | Allocated | Pipelined | Binding | Bound | Running | Releasing
  | Succeeded | Failed | Unknown

text \<open>The backing pod record \<^verbatim>\<open>*v1.Pod\<close>, with the two fields the code reads.\<close>

record Pod =
  pod_Namespace :: string
  pod_Name :: string

text \<open>
  Modelled from the spec: \<^verbatim>\<open>TaskInfo\<close> is declared outside the sources; the fields are
  those of the spec's data model. \<^verbatim>\<open>Priority\<close> is an int32.
\<close>

record TaskInfo =
  ti_UID :: TaskID
  ti_Job :: JobID
  ti_Name :: string
  ti_Namespace :: string
  ti_NodeName :: string
  ti_Resreq :: Resource
  ti_Priority :: "32 word"
  ti_VolumeReady :: bool
  ti_Pod :: Pod
  ti_Status :: TaskStatus

text \<open>
  Modelled from the spec: \<^verbatim>\<open>TaskInfo.Clone\<close> produces an independent instance with the
  same field values (the request vector is cloned as well).
\<close>

definition Clone_ti :: "TaskInfo \<Rightarrow> TaskInfo" where
  "Clone_ti ti = ti\<lparr>ti_Resreq := Clone (ti_Resreq ti)\<rparr>"

text \<open>
  Modelled from the spec: \<^verbatim>\<open>PodKey\<close> is a helper outside the sources; a node's task table
  is keyed by the task's pod, written namespace/name.
\<close>

definition PodKey :: "Pod \<Rightarrow> TaskID" where
  "PodKey pod = pod_Namespace pod @ ''/'' @ pod_Name pod"

text \<open>
  The node object \<^verbatim>\<open>*v1.Node\<close>. \<^verbatim>\<open>NewResource\<close> (outside the sources) turns a
  \<^verbatim>\<open>v1.ResourceList\<close> into a \<^verbatim>\<open>Resource\<close>; the record carries
  \<^verbatim>\<open>Status.Allocatable\<close> and \<^verbatim>\<open>Status.Capacity\<close> as the vectors it would produce.
\<close>

type_synonym ResourceList = Resource

record v1Node =
  node_Name :: string
  node_Allocatable :: ResourceList
  node_Capacity :: ResourceList

definition NewResource :: "ResourceList \<Rightarrow> Resource" where
  "NewResource rl = rl"

datatype NodePhase = Ready | NotReady

record NodeState =
  Phase :: NodePhase
  Reason :: string

text \<open>
  \<^verbatim>\<open>NodeInfo\<close>. \<^verbatim>\<open>Node\<close> is a pointer that may be nil (\<open>None\<close>). \<^verbatim>\<open>Tasks\<close> is a Go map
  that \<^verbatim>\<open>SetNode\<close> and \<^verbatim>\<open>Clone\<close> iterate over, so it is an association list with
  distinct keys, read with \<open>map_of\<close>, written with \<open>AList.update\<close> and \<open>AList.delete\<close>
  and iterated in list order. The node owns the \<^verbatim>\<open>TaskInfo\<close> objects in the table
  (they are the clones \<^verbatim>\<open>AddTask\<close> makes), so they are stored by value.
\<close>

record NodeInfo =
  ni_Name :: string
  ni_Node :: "v1Node option"
  ni_State :: NodeState
  ni_Releasing :: Resource
  ni_Pipelined :: Resource
  ni_Idle :: Resource
  ni_Used :: Resource
  ni_Allocatable :: Resource
  ni_Capability :: Resource
  ni_Tasks :: "(TaskID \<times> TaskInfo) list"

text \<open>
  \<^verbatim>\<open>FutureIdle\<close>: \<^verbatim>\<open>ni.Idle.Clone().Add(ni.Releasing).Sub(ni.Pipelined)\<close>. \<open>Add\<close> and
  \<open>Sub\<close> update their receiver, which is the clone; the second component is the node
  after the call.
\<close>

definition FutureIdle :: "NodeInfo \<Rightarrow> Resource \<times> NodeInfo" where
  "FutureIdle ni =
     (let c = Clone (ni_Idle ni);
          c = Add c (ni_Releasing ni);
          c = Sub c (ni_Pipelined ni)
      in (c, ni))"

definition Ready_ni :: "NodeInfo \<Rightarrow> bool" where
  "Ready_ni ni \<longleftrightarrow> Phase (ni_State ni) = Ready"

definition setNodeState :: "LessEqualFn \<Rightarrow> NodeInfo \<Rightarrow> v1Node option \<Rightarrow> NodeInfo" where
  "setNodeState le ni node =
     (case node of
        None \<Rightarrow> ni\<lparr>ni_State := \<lparr>Phase = NotReady, Reason = ''UnInitialized''\<rparr>\<rparr>
      | Some n \<Rightarrow>
          if \<not> le (ni_Used ni) (NewResource (node_Allocatable n))
          then ni\<lparr>ni_State := \<lparr>Phase = NotReady, Reason = ''OutOfSync''\<rparr>\<rparr>
          else ni\<lparr>ni_State := \<lparr>Phase = Ready, Reason = ''''\<rparr>\<rparr>)"

text \<open>The body of the loop of \<^verbatim>\<open>SetNode\<close> over \<^verbatim>\<open>ni.Tasks\<close>.\<close>

definition setNodeTask :: "TaskInfo \<Rightarrow> NodeInfo \<Rightarrow> NodeInfo" where
  "setNodeTask ti ni =
     (case ti_Status ti of
        Releasing \<Rightarrow>
          ni\<lparr>ni_Idle := Sub (ni_Idle ni) (ti_Resreq ti),
             ni_Releasing := Add (ni_Releasing ni) (ti_Resreq ti),
             ni_Used := Add (ni_Used ni) (ti_Resreq ti)\<rparr>
      | Pipelined \<Rightarrow>
          ni\<lparr>ni_Pipelined := Add (ni_Pipelined ni) (ti_Resreq ti)\<rparr>
      | _ \<Rightarrow>
          ni\<lparr>ni_Idle := Sub (ni_Idle ni) (ti_Resreq ti),
             ni_Used := Add (ni_Used ni) (ti_Resreq ti)\<rparr>)"

text \<open>
  \<^verbatim>\<open>SetNode\<close>. After \<^verbatim>\<open>setNodeState\<close> a ready node has a non-nil \<open>node\<close>; the \<open>None\<close>
  branch below the readiness test is never taken.
\<close>

definition SetNode :: "LessEqualFn \<Rightarrow> NodeInfo \<Rightarrow> v1Node option \<Rightarrow> NodeInfo" where
  "SetNode le ni node =
     (let ni1 = setNodeState le ni node in
      if \<not> Ready_ni ni1 then ni1
      else (case node of
              None \<Rightarrow> ni1
            | Some n \<Rightarrow>
                fold setNodeTask (map snd (ni_Tasks ni1))
                  (ni1\<lparr>ni_Name := node_Name n,
                       ni_Node := Some n,
                       ni_Allocatable := NewResource (node_Allocatable n),
                       ni_Capability := NewResource (node_Capacity n),
                       ni_Releasing := EmptyResource,
                       ni_Pipelined := EmptyResource,
                       ni_Idle := NewResource (node_Allocatable n),
                       ni_Used := EmptyResource\<rparr>)))"

definition allocateIdleResource :: "LessEqualFn \<Rightarrow> NodeInfo \<Rightarrow> TaskInfo \<Rightarrow> error + NodeInfo" where
  "allocateIdleResource le ni ti =
     (if le (ti_Resreq ti) (ni_Idle ni)
      then Inr (ni\<lparr>ni_Idle := Sub (ni_Idle ni) (ti_Resreq ti)\<rparr>)
      else Inl SelectedNodeNotReady)"

text \<open>
  \<^verbatim>\<open>AddTask\<close>. The result on success is the node and the caller's task after the call
  (the caller's \<^verbatim>\<open>NodeName\<close> is written through the pointer). On an error nothing has
  been written: the only write before a failing \<^verbatim>\<open>allocateIdleResource\<close> is to the
  clone's fields.
\<close>

definition AddTask :: "LessEqualFn \<Rightarrow> NodeInfo \<Rightarrow> TaskInfo \<Rightarrow> error + (NodeInfo \<times> TaskInfo)" where
  "AddTask le ni task =
     (if length (ti_NodeName task) > 0 \<and> length (ni_Name ni) > 0 \<and> ti_NodeName task \<noteq> ni_Name ni
      then Inl TaskOnDifferentNode
      else
        let key = PodKey (ti_Pod task) in
        case map_of (ni_Tasks ni) key of
          Some _ \<Rightarrow> Inl TaskAlreadyOnNode
        | None \<Rightarrow>
            let ti = Clone_ti task;
                accounted =
                  (if ni_Node ni \<noteq> None then
                     (case ti_Status ti of
                        Releasing \<Rightarrow>
                          (case allocateIdleResource le ni ti of
                             Inl err \<Rightarrow> Inl err
                           | Inr ni1 \<Rightarrow>
                               Inr (ni1\<lparr>ni_Releasing := Add (ni_Releasing ni1) (ti_Resreq ti),
                                        ni_Used := Add (ni_Used ni1) (ti_Resreq ti)\<rparr>))
                      | Pipelined \<Rightarrow>
                          Inr (ni\<lparr>ni_Pipelined := Add (ni_Pipelined ni) (ti_Resreq ti)\<rparr>)
                      | _ \<Rightarrow>
                          (case allocateIdleResource le ni ti of
                             Inl err \<Rightarrow> Inl err
                           | Inr ni1 \<Rightarrow>
                               Inr (ni1\<lparr>ni_Used := Add (ni_Used ni1) (ti_Resreq ti)\<rparr>)))
                   else Inr ni)
            in (case accounted of
                  Inl err \<Rightarrow> Inl err
                | Inr ni2 \<Rightarrow>
                    Inr (ni2\<lparr>ni_Tasks :=
                               AList.update key (ti\<lparr>ti_NodeName := ni_Name ni\<rparr>) (ni_Tasks ni2)\<rparr>,
                         task\<lparr>ti_NodeName := ni_Name ni\<rparr>)))"

definition RemoveTask :: "NodeInfo \<Rightarrow> TaskInfo \<Rightarrow> error + NodeInfo" where
  "RemoveTask ni ti =
     (let key = PodKey (ti_Pod ti) in
      case map_of (ni_Tasks ni) key of
        None \<Rightarrow> Inl TaskNotFoundOnHost
      | Some task \<Rightarrow>
          let ni1 =
                (if ni_Node ni \<noteq> None then
                   (case ti_Status task of
                      Releasing \<Rightarrow>
                        ni\<lparr>ni_Releasing := Sub (ni_Releasing ni) (ti_Resreq task),
                           ni_Idle := Add (ni_Idle ni) (ti_Resreq task),
                           ni_Used := Sub (ni_Used ni) (ti_Resreq task)\<rparr>
                    | Pipelined \<Rightarrow>
                        ni\<lparr>ni_Pipelined := Sub (ni_Pipelined ni) (ti_Resreq task)\<rparr>
                    | _ \<Rightarrow>
                        ni\<lparr>ni_Idle := Add (ni_Idle ni) (ti_Resreq task),
                           ni_Used := Sub (ni_Used ni) (ti_Resreq task)\<rparr>)
                 else ni)
          in Inr (ni1\<lparr>ni_Tasks := AList.delete key (ni_Tasks ni1)\<rparr>))"

text \<open>
  \<^verbatim>\<open>UpdateTask\<close>: when the task was removed and cannot be added again the code calls
  \<^verbatim>\<open>glog.Fatalf\<close>.
\<close>

definition UpdateTask :: "LessEqualFn \<Rightarrow> NodeInfo \<Rightarrow> TaskInfo \<Rightarrow> error + (NodeInfo \<times> TaskInfo)" where
  "UpdateTask le ni ti =
     (case RemoveTask ni ti of
        Inl err \<Rightarrow> Inl err
      | Inr ni1 \<Rightarrow>
          (case AddTask le ni1 ti of
             Inl err \<Rightarrow> Inl FatalExit
           | Inr r \<Rightarrow> Inr r))"




section \<open>Jobs (pkg/scheduler/api, job\_info.go)\<close>

text \<open>
  \<^verbatim>\<open>TaskInfo\<close> objects are shared through pointers: a job's table, the journal of a
  statement and the caller hold the same object. They live in a store, a function from
  addresses to objects; a \<^verbatim>\<open>*TaskInfo\<close> is an address.
\<close>

type_synonym addr = nat
type_synonym TaskStore = "addr \<Rightarrow> TaskInfo"

record PodGroup =
  pg_Name :: string
  pg_PriorityClassName :: string

record PDB =
  pdb_Name :: string

text \<open>
  Modelled from the spec: \<^verbatim>\<open>JobInfo\<close> is declared outside the sources. The fields are the
  spec's: identity, queue, priority, \<^verbatim>\<open>MinAvailable\<close> (int32), the optional \<^verbatim>\<open>PodGroup\<close>
  and \<^verbatim>\<open>PDB\<close>, and the table of task pointers. The spec's \<^verbatim>\<open>TaskStatusIndex\<close> is derived
  from the table and the tasks' statuses, so it is not stored.
\<close>

record JobInfo =
  ji_UID :: JobID
  ji_Name :: string
  ji_Namespace :: string
  ji_Queue :: QueueID
  ji_Priority :: "32 word"
  ji_MinAvailable :: "32 word"
  ji_PodGroup :: "PodGroup option"
  ji_PDB :: "PDB option"
  ji_Tasks :: "(TaskID \<times> addr) list"

text \<open>
  The spec lists the task transitions that are allowed and makes all others errors, but
  its own operations perform transitions outside the list (a pending task is pipelined, a
  releasing task is set back to running). The check \<^verbatim>\<open>validateStatusUpdate\<close> is outside
  the sources, so it is a parameter \<open>ok\<close>: \<open>ok old new\<close> holds when the update is accepted.
\<close>

type_synonym ValidateFn = "TaskStatus \<Rightarrow> TaskStatus \<Rightarrow> bool"

text \<open>The validation that accepts every update; it instantiates \<open>ok\<close> at concrete inputs.\<close>

definition validateAny :: ValidateFn where
  "validateAny old new = True"

text \<open>
  Modelled from the spec: \<^verbatim>\<open>job.UpdateTaskStatus(task, status)\<close> fails, changing nothing,
  when the transition is refused; otherwise it writes the task's status through the pointer
  and keeps the task in the job's table under its UID (so that the derived status index
  holds it under the new status).
\<close>

definition UpdateTaskStatus ::
  "ValidateFn \<Rightarrow> TaskStore \<Rightarrow> JobInfo \<Rightarrow> addr \<Rightarrow> TaskStatus \<Rightarrow> error + (TaskStore \<times> JobInfo)" where
  "UpdateTaskStatus ok st job task status =
     (if \<not> ok (ti_Status (st task)) status then Inl InvalidStatusUpdate
      else Inr (st(task := (st task)\<lparr>ti_Status := status\<rparr>),
                job\<lparr>ji_Tasks := AList.update (ti_UID (st task)) task (ji_Tasks job)\<rparr>))"

text \<open>
  Modelled from the spec: \<^verbatim>\<open>ReadyTaskNum()\<close> is the number of the job's tasks whose status
  is one of Allocated, Binding, Bound, Running, Succeeded, as an int32.
\<close>

definition readyStatus :: "TaskStatus \<Rightarrow> bool" where
  "readyStatus s \<longleftrightarrow> s = Allocated \<or> s = Binding \<or> s = Bound \<or> s = Running \<or> s = Succeeded"

definition ReadyTaskNum :: "TaskStore \<Rightarrow> JobInfo \<Rightarrow> 32 word" where
  "ReadyTaskNum st job =
     of_nat (length (filter (\<lambda>kv. readyStatus (ti_Status (st (snd kv)))) (ji_Tasks job)))"

section \<open>Session and statement (pkg/scheduler/framework)\<close>

text \<open>
  The session reaches the cache through the \<^verbatim>\<open>Cache\<close> interface. A call and its reply
  are values; the cache is a function from the calls made so far and the present call to
  the reply, which covers every deterministic implementation. Tasks in a call are recorded
  as the caller's object reads at the time of the call. \<open>reply_allBound\<close> is the flag that
  \<^verbatim>\<open>defaultVolumeBinder.AllocateVolumes\<close> writes into \<^verbatim>\<open>task.VolumeReady\<close>.
\<close>

datatype CacheCall =
    CallAllocateVolumes TaskInfo string
  | CallBindVolumes TaskInfo
  | CallBind TaskInfo string
  | CallEvict TaskInfo string

record CacheReply =
  reply_err :: "error option"
  reply_allBound :: bool

type_synonym Cache = "CacheCall list \<Rightarrow> CacheCall \<Rightarrow> CacheReply"

text \<open>
  The registered event handlers are plugin closures; a call of every handler's
  \<^verbatim>\<open>AllocateFunc\<close> or \<^verbatim>\<open>DeallocateFunc\<close> with a task is recorded as an event.
\<close>

datatype Event = AllocateEvent addr | DeallocateEvent addr

record Session =
  ssn_tasks :: TaskStore
  ssn_Jobs :: "JobID \<rightharpoonup> JobInfo"
  ssn_Nodes :: "string \<rightharpoonup> NodeInfo"
  ssn_cache :: Cache
  ssn_calls :: "CacheCall list"
  ssn_events :: "Event list"

text \<open>
  A journal record. The code appends three shapes only: name \<^verbatim>\<open>"evict"\<close> with the task
  and the reason, \<^verbatim>\<open>"pipeline"\<close> and \<^verbatim>\<open>"allocate"\<close> with the task and the host name.
\<close>

datatype operation =
    OpEvict addr string
  | OpPipeline addr string
  | OpAllocate addr string

record Statement =
  operations :: "operation list"
  ssn :: Session

text \<open>
  A call either returns, with its error value (\<open>None\<close> is nil) and the state it leaves,
  or ends the process (\<^verbatim>\<open>glog.Fatalf\<close>).
\<close>

datatype 'a run = Exit | Return "error option" 'a

definition callCache :: "Session \<Rightarrow> CacheCall \<Rightarrow> CacheReply \<times> Session" where
  "callCache sn c = (ssn_cache sn (ssn_calls sn) c, sn\<lparr>ssn_calls := ssn_calls sn @ [c]\<rparr>)"

text \<open>
  The first step shared by the statement's methods: look the task's job up in
  \<^verbatim>\<open>ssn.Jobs\<close> and call \<^verbatim>\<open>job.UpdateTaskStatus\<close>; the job is a pointer, so its new value
  is the one in the table.
\<close>

definition updateStatusInSession ::
  "ValidateFn \<Rightarrow> Session \<Rightarrow> addr \<Rightarrow> TaskStatus \<Rightarrow> error + Session" where
  "updateStatusInSession ok sn task status =
     (case ssn_Jobs sn (ti_Job (ssn_tasks sn task)) of
        None \<Rightarrow> Inl JobNotFound
      | Some job \<Rightarrow>
          (case UpdateTaskStatus ok (ssn_tasks sn) job task status of
             Inl err \<Rightarrow> Inl err
           | Inr r \<Rightarrow>
               Inr (sn\<lparr>ssn_tasks := fst r,
                        ssn_Jobs := (ssn_Jobs sn)(ti_Job (ssn_tasks sn task) \<mapsto> snd r)\<rparr>)))"

text \<open>Status update with the error only logged.\<close>

definition updateStatusLogged :: "ValidateFn \<Rightarrow> Session \<Rightarrow> addr \<Rightarrow> TaskStatus \<Rightarrow> Session" where
  "updateStatusLogged ok sn task status =
     (case updateStatusInSession ok sn task status of Inl err \<Rightarrow> sn | Inr sn1 \<Rightarrow> sn1)"

text \<open>
  \<^verbatim>\<open>node.UpdateTask(task)\<close> on the node found under \<open>host\<close>, the returned error dropped
  (as \<^verbatim>\<open>Evict\<close> and \<^verbatim>\<open>unevict\<close> do); \<open>None\<close> when \<^verbatim>\<open>UpdateTask\<close> ends the process.
\<close>

definition updateTaskOnNode :: "LessEqualFn \<Rightarrow> Session \<Rightarrow> addr \<Rightarrow> Session option" where
  "updateTaskOnNode le sn task =
     (case ssn_Nodes sn (ti_NodeName (ssn_tasks sn task)) of
        None \<Rightarrow> Some sn
      | Some node \<Rightarrow>
          (case UpdateTask le node (ssn_tasks sn task) of
             Inl err \<Rightarrow> (if err = FatalExit then None else Some sn)
           | Inr r \<Rightarrow>
               Some (sn\<lparr>ssn_Nodes := (ssn_Nodes sn)(ti_NodeName (ssn_tasks sn task) \<mapsto> fst r),
                         ssn_tasks := (ssn_tasks sn)(task := snd r)\<rparr>)))"

text \<open>\<^verbatim>\<open>node.RemoveTask(task)\<close> on the node found under the task's node name, the error logged.\<close>

definition removeTaskFromNode :: "Session \<Rightarrow> addr \<Rightarrow> Session" where
  "removeTaskFromNode sn task =
     (case ssn_Nodes sn (ti_NodeName (ssn_tasks sn task)) of
        None \<Rightarrow> sn
      | Some node \<Rightarrow>
          (case RemoveTask node (ssn_tasks sn task) of
             Inl err \<Rightarrow> sn
           | Inr node1 \<Rightarrow>
               sn\<lparr>ssn_Nodes := (ssn_Nodes sn)(ti_NodeName (ssn_tasks sn task) \<mapsto> node1)\<rparr>))"

text \<open>\<^verbatim>\<open>node.AddTask(task)\<close> on the node found under \<open>hostname\<close>.\<close>

definition addTaskToNode :: "LessEqualFn \<Rightarrow> Session \<Rightarrow> addr \<Rightarrow> string \<Rightarrow> error + Session" where
  "addTaskToNode le sn task hostname =
     (case ssn_Nodes sn hostname of
        None \<Rightarrow> Inl HostNotFound
      | Some node \<Rightarrow>
          (case AddTask le node (ssn_tasks sn task) of
             Inl err \<Rightarrow> Inl err
           | Inr r \<Rightarrow>
               Inr (sn\<lparr>ssn_Nodes := (ssn_Nodes sn)(hostname \<mapsto> fst r),
                        ssn_tasks := (ssn_tasks sn)(task := snd r)\<rparr>)))"

definition fireEvent :: "Event \<Rightarrow> Session \<Rightarrow> Session" where
  "fireEvent e sn = sn\<lparr>ssn_events := ssn_events sn @ [e]\<rparr>"

text \<open>\<^verbatim>\<open>Statement.Evict\<close>.\<close>

definition Evict :: "ValidateFn \<Rightarrow> LessEqualFn \<Rightarrow> Statement \<Rightarrow> addr \<Rightarrow> string \<Rightarrow> Statement run" where
  "Evict ok le s reclaimee reason =
     (let sn1 = updateStatusLogged ok (ssn s) reclaimee Releasing in
      case updateTaskOnNode le sn1 reclaimee of
        None \<Rightarrow> Exit
      | Some sn2 \<Rightarrow>
          Return None
            (s\<lparr>ssn := fireEvent (DeallocateEvent reclaimee) sn2,
               operations := operations s @ [OpEvict reclaimee reason]\<rparr>))"

text \<open>\<^verbatim>\<open>Statement.unevict\<close>; \<open>None\<close> when the process ends, otherwise it returns nil.\<close>

definition unevict :: "ValidateFn \<Rightarrow> LessEqualFn \<Rightarrow> Session \<Rightarrow> addr \<Rightarrow> string \<Rightarrow> Session option" where
  "unevict ok le sn reclaimee reason =
     (let sn1 = updateStatusLogged ok sn reclaimee Running in
      case updateTaskOnNode le sn1 reclaimee of
        None \<Rightarrow> None
      | Some sn2 \<Rightarrow> Some (fireEvent (AllocateEvent reclaimee) sn2))"


text \<open>\<^verbatim>\<open>Statement.Pipeline\<close>.\<close>

definition Pipeline :: "ValidateFn \<Rightarrow> LessEqualFn \<Rightarrow> Statement \<Rightarrow> addr \<Rightarrow> string \<Rightarrow> Statement run" where
  "Pipeline ok le s task hostname =
     (case updateStatusInSession ok (ssn s) task Pipelined of
        Inl err \<Rightarrow> Return (Some err) s
      | Inr sn1 \<Rightarrow>
          (case addTaskToNode le sn1 task hostname of
             Inl err \<Rightarrow> Return (Some err) (s\<lparr>ssn := sn1\<rparr>)
           | Inr sn2 \<Rightarrow>
               Return None
                 (s\<lparr>ssn := fireEvent (AllocateEvent task) sn2,
                    operations := operations s @ [OpPipeline task hostname]\<rparr>)))"


text \<open>\<^verbatim>\<open>Statement.unpipeline\<close>; it always returns nil.\<close>

definition unpipeline :: "ValidateFn \<Rightarrow> Session \<Rightarrow> addr \<Rightarrow> Session" where
  "unpipeline ok sn task =
     (let sn1 = updateStatusLogged ok sn task Pending;
          sn2 = removeTaskFromNode sn1 task
      in fireEvent (DeallocateEvent task) sn2)"

text \<open>
  \<^verbatim>\<open>Statement.Allocate\<close>. \<^verbatim>\<open>AllocateVolumes\<close> writes \<^verbatim>\<open>task.VolumeReady\<close> before its
  error is looked at.
\<close>

definition Allocate :: "ValidateFn \<Rightarrow> LessEqualFn \<Rightarrow> Statement \<Rightarrow> addr \<Rightarrow> string \<Rightarrow> Statement run" where
  "Allocate ok le s task hostname =
     (let r = callCache (ssn s) (CallAllocateVolumes (ssn_tasks (ssn s) task) hostname);
          sn0 = (snd r)\<lparr>ssn_tasks :=
                   (ssn_tasks (snd r))(task :=
                      (ssn_tasks (snd r) task)\<lparr>ti_VolumeReady := reply_allBound (fst r)\<rparr>)\<rparr>
      in case reply_err (fst r) of
           Some err \<Rightarrow> Return (Some err) (s\<lparr>ssn := sn0\<rparr>)
         | None \<Rightarrow>
             (case updateStatusInSession ok sn0 task Allocated of
                Inl err \<Rightarrow> Return (Some err) (s\<lparr>ssn := sn0\<rparr>)
              | Inr sn1 \<Rightarrow>
                  (case addTaskToNode le sn1 task hostname of
                     Inl err \<Rightarrow> Return (Some err) (s\<lparr>ssn := sn1\<rparr>)
                   | Inr sn2 \<Rightarrow>
                       Return None
                         (s\<lparr>ssn := fireEvent (AllocateEvent task) sn2,
                            operations := operations s @ [OpAllocate task hostname]\<rparr>))))"


text \<open>\<^verbatim>\<open>Statement.unallocate\<close>; it always returns nil.\<close>

definition unallocate :: "ValidateFn \<Rightarrow> Session \<Rightarrow> addr \<Rightarrow> string \<Rightarrow> Session" where
  "unallocate ok sn task reason =
     (let sn1 = updateStatusLogged ok sn task Pending;
          sn2 = removeTaskFromNode sn1 task
      in fireEvent (DeallocateEvent task) sn2)"

text \<open>The inverse that \<^verbatim>\<open>Discard\<close> applies to one journal record.\<close>

definition discardOp :: "ValidateFn \<Rightarrow> LessEqualFn \<Rightarrow> operation \<Rightarrow> Session \<Rightarrow> Session option" where
  "discardOp ok le op sn =
     (case op of
        OpEvict task reason \<Rightarrow> unevict ok le sn task reason
      | OpPipeline task hostname \<Rightarrow> Some (unpipeline ok sn task)
      | OpAllocate task hostname \<Rightarrow> Some (unallocate ok sn task hostname))"

text \<open>
  The loop of \<^verbatim>\<open>Discard\<close>, \<^verbatim>\<open>for i := len(s.operations) - 1; i >= 0; i--\<close>: the argument
  is the part of the journal still to be undone, and its last record is undone first.
\<close>

fun discardLoop :: "ValidateFn \<Rightarrow> LessEqualFn \<Rightarrow> operation list \<Rightarrow> Session \<Rightarrow> Session option" where
  "discardLoop ok le [] sn = Some sn"
| "discardLoop ok le (op # ops) sn =
     (case discardLoop ok le ops sn of
        None \<Rightarrow> None
      | Some sn1 \<Rightarrow> discardOp ok le op sn1)"

text \<open>\<^verbatim>\<open>Statement.Discard\<close>; the journal itself is left as it is. \<open>None\<close>: the process ended.\<close>

definition Discard :: "ValidateFn \<Rightarrow> LessEqualFn \<Rightarrow> Statement \<Rightarrow> Statement option" where
  "Discard ok le s =
     (case discardLoop ok le (operations s) (ssn s) of
        None \<Rightarrow> None
      | Some sn \<Rightarrow> Some (s\<lparr>ssn := sn\<rparr>))"




section \<open>Sequences of statement operations\<close>

text \<open>
  Performing through the statement the operation that a journal record stands for:
  \<^verbatim>\<open>Evict(task, reason)\<close>, \<^verbatim>\<open>Pipeline(task, host)\<close> or \<^verbatim>\<open>Allocate(task, host)\<close>.
\<close>

definition perform :: "ValidateFn \<Rightarrow> LessEqualFn \<Rightarrow> operation \<Rightarrow> Statement \<Rightarrow> Statement run" where
  "perform ok le op s =
     (case op of
        OpEvict task reason \<Rightarrow> Evict ok le s task reason
      | OpPipeline task hostname \<Rightarrow> Pipeline ok le s task hostname
      | OpAllocate task hostname \<Rightarrow> Allocate ok le s task hostname)"

text \<open>
  The situations in which the scheduler's actions use the three operations. A task is
  allocated or pipelined while it is Pending, and the update back to Pending is accepted.
  A task is evicted while it is Running; its job, when it is in the session, accepts the
  updates to Releasing and back to Running, and the copy of the task on its node, when
  there is one, is Running with the same request. The node concerned is indexed under its
  own name.
\<close>

definition indexedAt :: "Session \<Rightarrow> string \<Rightarrow> bool" where
  "indexedAt sn hostname \<longleftrightarrow>
     (case ssn_Nodes sn hostname of None \<Rightarrow> True | Some node \<Rightarrow> ni_Name node = hostname)"

definition eligible :: "ValidateFn \<Rightarrow> Session \<Rightarrow> operation \<Rightarrow> bool" where
  "eligible ok sn op =
     (case op of
        OpAllocate task hostname \<Rightarrow>
          ti_Status (ssn_tasks sn task) = Pending \<and> ok Allocated Pending \<and> indexedAt sn hostname
      | OpPipeline task hostname \<Rightarrow>
          ti_Status (ssn_tasks sn task) = Pending \<and> ok Pipelined Pending \<and> indexedAt sn hostname
      | OpEvict task reason \<Rightarrow>
          (let t = ssn_tasks sn task in
           ti_Status t = Running \<and>
           (case ssn_Jobs sn (ti_Job t) of
              None \<Rightarrow> True
            | Some job \<Rightarrow> ok Running Releasing \<and> ok Releasing Running) \<and>
           indexedAt sn (ti_NodeName t) \<and>
           (case ssn_Nodes sn (ti_NodeName t) of
              None \<Rightarrow> True
            | Some node \<Rightarrow>
                (case map_of (ni_Tasks node) (PodKey (ti_Pod t)) of
                   None \<Rightarrow> True
                 | Some c \<Rightarrow> ti_Status c = Running \<and> ti_Resreq c = ti_Resreq t))))"

text \<open>
  Performing a list of operations in order; \<open>None\<close> unless every one of them is used in
  such a situation and returns nil.
\<close>

fun performAll ::
  "ValidateFn \<Rightarrow> LessEqualFn \<Rightarrow> operation list \<Rightarrow> Statement \<Rightarrow> Statement option" where
  "performAll ok le [] s = Some s"
| "performAll ok le (op # ops) s =
     (if \<not> eligible ok (ssn s) op then None
      else (case perform ok le op s of
              Exit \<Rightarrow> None
            | Return err s1 \<Rightarrow>
                (case err of None \<Rightarrow> performAll ok le ops s1 | Some e \<Rightarrow> None)))"

text \<open>The four resource vectors of a node that the statement's operations change.\<close>

definition nodeVectors :: "NodeInfo \<Rightarrow> Resource \<times> Resource \<times> Resource \<times> Resource" where
  "nodeVectors ni = (ni_Idle ni, ni_Used ni, ni_Releasing ni, ni_Pipelined ni)"


section \<open>Gang plugin (pkg/scheduler/plugins/gang/gang.go)\<close>

text \<open>
  The loop of \<^verbatim>\<open>preemptableFn\<close> over the preemptees, with the victims collected so far
  and \<^verbatim>\<open>jobOccupiedMap\<close>. \<^verbatim>\<open>ssn.Jobs[preemptee.Job]\<close> is nil for a job that is not in the
  index, and reading \<^verbatim>\<open>job.UID\<close> then panics: the result is \<open>None\<close>. The comparison with
  \<^verbatim>\<open>MinAvailable\<close> is the signed one of int32.
\<close>

fun gangVictims ::
  "Session \<Rightarrow> addr list \<Rightarrow> addr list \<Rightarrow> (JobID \<rightharpoonup> 32 word) \<Rightarrow> addr list option" where
  "gangVictims sn [] victims jobOccupiedMap = Some victims"
| "gangVictims sn (preemptee # rest) victims jobOccupiedMap =
     (case ssn_Jobs sn (ti_Job (ssn_tasks sn preemptee)) of
        None \<Rightarrow> None
      | Some job \<Rightarrow>
          (let m1 = (case jobOccupiedMap (ji_UID job) of
                       None \<Rightarrow> jobOccupiedMap(ji_UID job \<mapsto> ReadyTaskNum (ssn_tasks sn) job)
                     | Some n \<Rightarrow> jobOccupiedMap);
               occupied = (case m1 (ji_UID job) of None \<Rightarrow> 0 | Some n \<Rightarrow> n)
           in if ji_MinAvailable job <s occupied
              then gangVictims sn rest (victims @ [preemptee]) (m1(ji_UID job \<mapsto> occupied - 1))
              else gangVictims sn rest victims m1))"

definition preemptableFn :: "Session \<Rightarrow> addr \<Rightarrow> addr list \<Rightarrow> addr list option" where
  "preemptableFn sn preemptor preemptees = gangVictims sn preemptees [] Map.empty"

text \<open>The number of entries of a victim list whose job, looked up in the session, has the given UID.\<close>

definition victimsOfJob :: "Session \<Rightarrow> JobID \<Rightarrow> addr list \<Rightarrow> nat" where
  "victimsOfJob sn uid victims =
     length (filter (\<lambda>v. map_option ji_UID (ssn_Jobs sn (ti_Job (ssn_tasks sn v))) = Some uid) victims)"

text \<open>
  The loop invariant of \<^verbatim>\<open>preemptableFn\<close>: a job without an entry in \<^verbatim>\<open>jobOccupiedMap\<close> has
  no victim yet, and the entry of a job is its \<^verbatim>\<open>ReadyTaskNum\<close> minus the number of its
  victims so far, which is at least \<^verbatim>\<open>MinAvailable\<close> once the job has a victim.
\<close>

definition gangInv :: "Session \<Rightarrow> addr list \<Rightarrow> (JobID \<rightharpoonup> 32 word) \<Rightarrow> bool" where
  "gangInv sn victims m \<longleftrightarrow>
     (\<forall>u. m u = None \<longrightarrow> victimsOfJob sn u victims = 0) \<and>
     (\<forall>u occ. m u = Some occ \<longrightarrow>
        (\<exists>job. ssn_Jobs sn u = Some job \<and>
           sint occ = sint (ReadyTaskNum (ssn_tasks sn) job) - int (victimsOfJob sn u victims) \<and>
           (0 < victimsOfJob sn u victims \<longrightarrow> sint (ji_MinAvailable job) \<le> sint occ)))"

section \<open>Scheduler cache\<close>

text \<open>Modelled from the spec: \<^verbatim>\<open>QueueInfo\<close> (name, weight) and its \<^verbatim>\<open>Clone\<close>.\<close>

record QueueInfo =
  qi_UID :: QueueID
  qi_Name :: string
  qi_Weight :: "32 word"


record PriorityClass =
  pc_Value :: "32 word"


text \<open>
  A detached call \<^verbatim>\<open>go func() { sc.Binder.Bind(p, hostname) ... }()\<close>, recorded when it is
  started: the pod, the host and the task that is resynchronised if the call fails.
\<close>

datatype Spawned = SpawnBind Pod string addr

text \<open>
  The fields of \<^verbatim>\<open>SchedulerCache\<close> that \<^verbatim>\<open>Bind\<close> and \<^verbatim>\<open>Snapshot\<close> use. The three tables
  that \<^verbatim>\<open>Snapshot\<close> iterates over are association lists with distinct keys, iterated in
  list order. \<open>sc_errTasks\<close> holds the tasks given to \<^verbatim>\<open>errTasks.AddRateLimited\<close>.
\<close>

record SchedulerCache =
  sc_tasks :: TaskStore
  sc_Jobs :: "(JobID \<times> JobInfo) list"
  sc_Nodes :: "(string \<times> NodeInfo) list"
  sc_Queues :: "(QueueID \<times> QueueInfo) list"
  sc_PriorityClasses :: "string \<rightharpoonup> PriorityClass"
  sc_defaultPriority :: "32 word"
  sc_errTasks :: "addr list"
  sc_spawned :: "Spawned list"

definition findJobAndTask :: "SchedulerCache \<Rightarrow> TaskInfo \<Rightarrow> error + (JobInfo \<times> addr)" where
  "findJobAndTask sc taskInfo =
     (case map_of (sc_Jobs sc) (ti_Job taskInfo) of
        None \<Rightarrow> Inl JobNotFound
      | Some job \<Rightarrow>
          (case map_of (ji_Tasks job) (ti_UID taskInfo) of
             None \<Rightarrow> Inl TaskNotFoundInJob
           | Some task \<Rightarrow> Inr (job, task)))"

definition resyncTask :: "SchedulerCache \<Rightarrow> addr \<Rightarrow> SchedulerCache" where
  "resyncTask sc task = sc\<lparr>sc_errTasks := sc_errTasks sc @ [task]\<rparr>"

text \<open>
  \<^verbatim>\<open>SchedulerCache.Bind\<close>, the body under the mutex. \<open>job\<close> and \<open>node\<close> are pointers into
  the tables, so their new values are written back under the keys they were found at.
\<close>

definition Bind ::
  "ValidateFn \<Rightarrow> LessEqualFn \<Rightarrow> SchedulerCache \<Rightarrow> TaskInfo \<Rightarrow> string
     \<Rightarrow> error option \<times> SchedulerCache" where
  "Bind ok le sc taskInfo hostname =
     (case findJobAndTask sc taskInfo of
        Inl err \<Rightarrow> (Some err, sc)
      | Inr jt \<Rightarrow>
          (case map_of (sc_Nodes sc) hostname of
             None \<Rightarrow> (Some HostNotFound, sc)
           | Some node \<Rightarrow>
               (let job = fst jt; task = snd jt;
                    originalStatus = ti_Status (sc_tasks sc task)
                in case UpdateTaskStatus ok (sc_tasks sc) job task Binding of
                     Inl err \<Rightarrow> (Some err, sc)
                   | Inr r1 \<Rightarrow>
                       (case AddTask le node (fst r1 task) of
                          Inl err \<Rightarrow>
                            (case UpdateTaskStatus ok (fst r1) (snd r1) task originalStatus of
                               Inl err2 \<Rightarrow>
                                 (Some err,
                                  resyncTask
                                    (sc\<lparr>sc_tasks := fst r1,
                                        sc_Jobs := AList.update (ti_Job taskInfo) (snd r1) (sc_Jobs sc)\<rparr>)
                                    task)
                             | Inr r2 \<Rightarrow>
                                 (Some err,
                                  sc\<lparr>sc_tasks := fst r2,
                                     sc_Jobs := AList.update (ti_Job taskInfo) (snd r2) (sc_Jobs sc)\<rparr>))
                        | Inr r \<Rightarrow>
                            (None,
                             sc\<lparr>sc_tasks := (fst r1)(task := snd r),
                                sc_Jobs := AList.update (ti_Job taskInfo) (snd r1) (sc_Jobs sc),
                                sc_Nodes := AList.update hostname (fst r) (sc_Nodes sc),
                                sc_spawned := sc_spawned sc @
                                  [SpawnBind (ti_Pod (snd r)) hostname task]\<rparr>)))))"








section \<open>Sessions that agree\<close>

text \<open>
  Two nodes hold copies of the same tasks with the same status and request: what the
  accounting of \<^verbatim>\<open>AddTask\<close> and \<^verbatim>\<open>RemoveTask\<close> reads of a copy.
\<close>

definition copiesAgree :: "NodeInfo \<Rightarrow> NodeInfo \<Rightarrow> bool" where
  "copiesAgree n n' \<longleftrightarrow>
     (\<forall>k. rel_option (\<lambda>c c'. ti_Status c = ti_Status c' \<and> ti_Resreq c = ti_Resreq c')
            (map_of (ni_Tasks n) k) (map_of (ni_Tasks n') k))"

text \<open>Two nodes agree in every field and, in the sense above, in their tasks.\<close>

definition sameNode :: "NodeInfo \<Rightarrow> NodeInfo \<Rightarrow> bool" where
  "sameNode n n' \<longleftrightarrow>
     ni_Name n' = ni_Name n \<and> ni_Node n' = ni_Node n \<and> ni_State n' = ni_State n \<and>
     ni_Idle n' = ni_Idle n \<and> ni_Used n' = ni_Used n \<and>
     ni_Releasing n' = ni_Releasing n \<and> ni_Pipelined n' = ni_Pipelined n \<and>
     ni_Allocatable n' = ni_Allocatable n \<and> ni_Capability n' = ni_Capability n \<and>
     copiesAgree n n'"

text \<open>
  The second session is the first one given back by \<^verbatim>\<open>Discard\<close>: every task object is
  the same up to its \<^verbatim>\<open>NodeName\<close> and \<^verbatim>\<open>VolumeReady\<close> (which the inverse operations
  do not reset), and entirely the same unless it is Pending; the same jobs are indexed; and
  the nodes agree.
\<close>

definition restored :: "Session \<Rightarrow> Session \<Rightarrow> bool" where
  "restored sn sn' \<longleftrightarrow>
     (\<forall>b. ti_Status (ssn_tasks sn b) \<noteq> Pending \<longrightarrow> ssn_tasks sn' b = ssn_tasks sn b) \<and>
     (\<forall>b. \<exists>nn vr. ssn_tasks sn' b = (ssn_tasks sn b)\<lparr>ti_NodeName := nn, ti_VolumeReady := vr\<rparr>) \<and>
     (\<forall>j. (ssn_Jobs sn' j = None) = (ssn_Jobs sn j = None)) \<and>
     (\<forall>k. rel_option sameNode (ssn_Nodes sn k) (ssn_Nodes sn' k))"

text \<open>The state a call leaves when it returns nil.\<close>

definition returned :: "'a run \<Rightarrow> 'a option" where
  "returned r = (case r of Exit \<Rightarrow> None | Return err x \<Rightarrow> (case err of None \<Rightarrow> Some x | Some e \<Rightarrow> None))"

section \<open>A small cluster for concrete inputs\<close>

text \<open>
  One node \<open>n1\<close> with 4000 milli-CPU and 8000 bytes of memory allocatable, and tasks that
  request 1000 milli-CPU and 2000 bytes each.
\<close>

definition exAlloc :: Resource where
  "exAlloc = \<lparr>MilliCPU = 4000, Memory = 8000, ScalarResources = (\<lambda>_. 0)\<rparr>"

definition exReq :: Resource where
  "exReq = \<lparr>MilliCPU = 1000, Memory = 2000, ScalarResources = (\<lambda>_. 0)\<rparr>"

definition exV1Node :: v1Node where
  "exV1Node = \<lparr>node_Name = ''n1'', node_Allocatable = exAlloc, node_Capacity = exAlloc\<rparr>"

text \<open>The same node object after its allocatable resources have shrunk below what is in use.\<close>

definition exSmallV1Node :: v1Node where
  "exSmallV1Node =
     \<lparr>node_Name = ''n1'',
      node_Allocatable = \<lparr>MilliCPU = 500, Memory = 1000, ScalarResources = (\<lambda>_. 0)\<rparr>,
      node_Capacity = exAlloc\<rparr>"

definition exNode :: NodeInfo where
  "exNode =
     \<lparr>ni_Name = ''n1'', ni_Node = Some exV1Node,
      ni_State = \<lparr>Phase = Ready, Reason = ''''\<rparr>,
      ni_Releasing = EmptyResource, ni_Pipelined = EmptyResource,
      ni_Idle = exAlloc, ni_Used = EmptyResource,
      ni_Allocatable = exAlloc, ni_Capability = exAlloc, ni_Tasks = []\<rparr>"

definition exTask :: "string \<Rightarrow> TaskStatus \<Rightarrow> TaskInfo" where
  "exTask name s =
     \<lparr>ti_UID = name, ti_Job = ''j1'', ti_Name = name, ti_Namespace = ''ns'',
      ti_NodeName = '''', ti_Resreq = exReq, ti_Priority = 1, ti_VolumeReady = False,
      ti_Pod = \<lparr>pod_Namespace = ''ns'', pod_Name = name\<rparr>, ti_Status = s\<rparr>"

text \<open>The node with the running task \<open>t1\<close> on it.\<close>

definition exNode1 :: NodeInfo where
  "exNode1 =
     exNode\<lparr>ni_Idle := \<lparr>MilliCPU = 3000, Memory = 6000, ScalarResources = (\<lambda>_. 0)\<rparr>,
            ni_Used := exReq,
            ni_Tasks := [(''ns/t1'', (exTask ''t1'' Running)\<lparr>ti_NodeName := ''n1''\<rparr>)]\<rparr>"

text \<open>The node with the running task \<open>t1\<close> and the releasing task \<open>t2\<close> on it.\<close>

definition exNode2 :: NodeInfo where
  "exNode2 =
     exNode\<lparr>ni_Idle := \<lparr>MilliCPU = 2000, Memory = 4000, ScalarResources = (\<lambda>_. 0)\<rparr>,
            ni_Used := \<lparr>MilliCPU = 2000, Memory = 4000, ScalarResources = (\<lambda>_. 0)\<rparr>,
            ni_Releasing := exReq,
            ni_Tasks := [(''ns/t1'', (exTask ''t1'' Running)\<lparr>ti_NodeName := ''n1''\<rparr>),
                         (''ns/t2'', (exTask ''t2'' Releasing)\<lparr>ti_NodeName := ''n1''\<rparr>)]\<rparr>"

text \<open>A session over the node with the running task \<open>t1\<close> and two pending tasks.\<close>

definition exJob :: JobInfo where
  "exJob =
     \<lparr>ji_UID = ''j1'', ji_Name = ''j1'', ji_Namespace = ''ns'', ji_Queue = ''q1'',
      ji_Priority = 0, ji_MinAvailable = 2,
      ji_PodGroup = Some \<lparr>pg_Name = ''pg1'', pg_PriorityClassName = ''high''\<rparr>,
      ji_PDB = None,
      ji_Tasks = [(''t1'', 0), (''t2'', 1), (''t3'', 2)]\<rparr>"

definition exStore :: TaskStore where
  "exStore =
     (\<lambda>a. exTask ''t0'' Unknown)
       (0 := (exTask ''t1'' Running)\<lparr>ti_NodeName := ''n1''\<rparr>,
        1 := exTask ''t2'' Pending,
        2 := exTask ''t3'' Pending)"

text \<open>A cache that accepts every call.\<close>

definition exCache :: Cache where
  "exCache calls c = \<lparr>reply_err = None, reply_allBound = True\<rparr>"

definition exSession :: Session where
  "exSession =
     \<lparr>ssn_tasks = exStore, ssn_Jobs = [''j1'' \<mapsto> exJob], ssn_Nodes = [''n1'' \<mapsto> exNode1],
      ssn_cache = exCache, ssn_calls = [], ssn_events = []\<rparr>"

definition exStatement :: Statement where
  "exStatement = \<lparr>operations = [], ssn = exSession\<rparr>"

definition exOps :: "operation list" where
  "exOps = [OpAllocate 1 ''n1'', OpPipeline 2 ''n1'', OpEvict 0 ''preempted'']"

text \<open>The same session with the task \<open>t1\<close> Bound instead of Running.\<close>

definition exBoundStatement :: Statement where
  "exBoundStatement =
     \<lparr>operations = [],
      ssn = exSession\<lparr>ssn_tasks := exStore(0 := (exTask ''t1'' Bound)\<lparr>ti_NodeName := ''n1''\<rparr>),
              ssn_Nodes := [''n1'' \<mapsto> exNode1\<lparr>ni_Tasks :=
                  [(''ns/t1'', (exTask ''t1'' Bound)\<lparr>ti_NodeName := ''n1''\<rparr>)]\<rparr>]\<rparr>\<rparr>"

text \<open>
  A node whose resources are all used by the running task \<open>t1\<close>, with the task \<open>t2\<close>
  pipelined onto it, and the statement that has recorded this pipeline.
\<close>

definition exTinyV1Node :: v1Node where
  "exTinyV1Node = \<lparr>node_Name = ''n1'', node_Allocatable = exReq, node_Capacity = exReq\<rparr>"

definition exBusyNode :: NodeInfo where
  "exBusyNode =
     \<lparr>ni_Name = ''n1'', ni_Node = Some exTinyV1Node,
      ni_State = \<lparr>Phase = Ready, Reason = ''''\<rparr>,
      ni_Releasing = EmptyResource, ni_Pipelined = exReq,
      ni_Idle = EmptyResource, ni_Used = exReq,
      ni_Allocatable = exReq, ni_Capability = exReq,
      ni_Tasks = [(''ns/t1'', (exTask ''t1'' Running)\<lparr>ti_NodeName := ''n1''\<rparr>),
                  (''ns/t2'', (exTask ''t2'' Pipelined)\<lparr>ti_NodeName := ''n1''\<rparr>)]\<rparr>"




text \<open>The session with all three tasks of the job running.\<close>

definition exGangSession :: Session where
  "exGangSession =
     exSession\<lparr>ssn_tasks :=
       (\<lambda>a. exTask ''t0'' Unknown)
         (0 := (exTask ''t1'' Running)\<lparr>ti_NodeName := ''n1''\<rparr>,
          1 := (exTask ''t2'' Running)\<lparr>ti_NodeName := ''n1''\<rparr>,
          2 := (exTask ''t3'' Running)\<lparr>ti_NodeName := ''n1''\<rparr>)\<rparr>"

text \<open>
  A scheduler cache: the busy node \<open>n1\<close> and a node \<open>n2\<close> that is not ready, one queue, one
  priority class, and four jobs (\<open>j1\<close> with the priority class \<open>high\<close>, \<open>j2\<close> without
  scheduling spec, \<open>j3\<close> in a queue that does not exist, \<open>j4\<close> with a priority class that
  does not exist).
\<close>

definition exQueue :: QueueInfo where
  "exQueue = \<lparr>qi_UID = ''q1'', qi_Name = ''q1'', qi_Weight = 1\<rparr>"

definition exDownNode :: NodeInfo where
  "exDownNode = exNode\<lparr>ni_Name := ''n2'', ni_State := \<lparr>Phase = NotReady, Reason = ''OutOfSync''\<rparr>\<rparr>"

definition exSchedulerCache :: SchedulerCache where
  "exSchedulerCache =
     \<lparr>sc_tasks = exStore,
      sc_Jobs =
        [(''j1'', exJob),
         (''j2'', exJob\<lparr>ji_UID := ''j2'', ji_PodGroup := None, ji_Tasks := []\<rparr>),
         (''j3'', exJob\<lparr>ji_UID := ''j3'', ji_Queue := ''q9'', ji_Tasks := []\<rparr>),
         (''j4'', exJob\<lparr>ji_UID := ''j4'', ji_Tasks := [],
                       ji_PodGroup := Some \<lparr>pg_Name = ''pg4'', pg_PriorityClassName = ''low''\<rparr>\<rparr>)],
      sc_Nodes = [(''n1'', exBusyNode), (''n2'', exDownNode)],
      sc_Queues = [(''q1'', exQueue)],
      sc_PriorityClasses = [''high'' \<mapsto> \<lparr>pc_Value = 100\<rparr>],
      sc_defaultPriority = 7,
      sc_errTasks = [], sc_spawned = []\<rparr>"

text \<open>A validation that accepts the updates to Binding and no other.\<close>

definition validateForward :: ValidateFn where
  "validateForward old new \<longleftrightarrow> new = Binding"

section \<open>Properties of the resource algebra\<close>

lemma Add_Sub_cancel: "Add (Sub a r) (Add u r) = Add a u"
  by (simp add: Add_def Sub_def)

lemma Add_Sub_cancel2: "Add (Add a r) (Sub u r) = Add a u"
  by (simp add: Add_def Sub_def)

lemma Add_Empty: "Add r EmptyResource = r"
  by (simp add: Add_def EmptyResource_def)

lemmas exdefs =
  exNode2_def exNode1_def exNode_def exTask_def exReq_def exAlloc_def exV1Node_def
  exSmallV1Node_def EmptyResource_def PodKey_def LessEqualOn_def NewResource_def

lemmas stmtdefs = eligible_def indexedAt_def perform_def Allocate_def Pipeline_def Evict_def
  callCache_def updateStatusInSession_def updateStatusLogged_def UpdateTaskStatus_def
  addTaskToNode_def updateTaskOnNode_def removeTaskFromNode_def fireEvent_def
  AddTask_def RemoveTask_def UpdateTask_def allocateIdleResource_def Clone_ti_def Clone_def
  Add_def Sub_def Let_def validateAny_def

lemmas sessdefs = exStatement_def exSession_def exStore_def exJob_def exCache_def exOps_def

section \<open>NodeInfo\<close>

lemma AddTask_vectors:
  assumes "AddTask le ni task = Inr (ni', task')" and "ni_Node ni \<noteq> None"
  shows "ni_Allocatable ni' = ni_Allocatable ni"
    and "ti_Status task = Pipelined \<Longrightarrow>
           ni_Idle ni' = ni_Idle ni \<and> ni_Used ni' = ni_Used ni \<and>
           ni_Pipelined ni' = Add (ni_Pipelined ni) (ti_Resreq task) \<and>
           ni_Releasing ni' = ni_Releasing ni"
    and "ti_Status task = Releasing \<Longrightarrow>
           ni_Idle ni' = Sub (ni_Idle ni) (ti_Resreq task) \<and>
           ni_Used ni' = Add (ni_Used ni) (ti_Resreq task) \<and>
           ni_Releasing ni' = Add (ni_Releasing ni) (ti_Resreq task) \<and>
           ni_Pipelined ni' = ni_Pipelined ni"
    and "ti_Status task \<noteq> Pipelined \<Longrightarrow> ti_Status task \<noteq> Releasing \<Longrightarrow>
           ni_Idle ni' = Sub (ni_Idle ni) (ti_Resreq task) \<and>
           ni_Used ni' = Add (ni_Used ni) (ti_Resreq task) \<and>
           ni_Releasing ni' = ni_Releasing ni \<and>
           ni_Pipelined ni' = ni_Pipelined ni"
  using assms
  by (auto simp: AddTask_def Let_def allocateIdleResource_def Clone_ti_def Clone_def
           split: if_splits option.splits TaskStatus.splits sum.splits)

lemma AddTask_sum:
  assumes "AddTask le ni task = Inr (ni', task')" and "ni_Node ni \<noteq> None"
  shows "Add (ni_Idle ni') (ni_Used ni') = Add (ni_Idle ni) (ni_Used ni)"
proof (cases "ti_Status task = Pipelined")
  case True
  then show ?thesis using AddTask_vectors(2)[OF assms] by simp
next
  case False
  then have "ni_Idle ni' = Sub (ni_Idle ni) (ti_Resreq task) \<and>
             ni_Used ni' = Add (ni_Used ni) (ti_Resreq task)"
    using AddTask_vectors(3,4)[OF assms] by blast
  then show ?thesis by (simp add: Add_Sub_cancel)
qed

lemma RemoveTask_vectors:
  assumes "RemoveTask ni ti = Inr ni'" and "ni_Node ni \<noteq> None"
  shows "ni_Allocatable ni' = ni_Allocatable ni"
    and "Add (ni_Idle ni') (ni_Used ni') = Add (ni_Idle ni) (ni_Used ni)"
  using assms
  by (auto simp: RemoveTask_def Let_def Add_Sub_cancel2
           split: if_splits option.splits TaskStatus.splits)

lemma setNodeTask_frame:
  "ni_Allocatable (setNodeTask ti ni) = ni_Allocatable ni \<and>
   ni_State (setNodeTask ti ni) = ni_State ni \<and>
   Add (ni_Idle (setNodeTask ti ni)) (ni_Used (setNodeTask ti ni)) = Add (ni_Idle ni) (ni_Used ni)"
  by (simp add: setNodeTask_def Add_Sub_cancel split: TaskStatus.splits)

lemma fold_setNodeTask_frame:
  "ni_Allocatable (fold setNodeTask ts ni) = ni_Allocatable ni \<and>
   ni_State (fold setNodeTask ts ni) = ni_State ni \<and>
   Add (ni_Idle (fold setNodeTask ts ni)) (ni_Used (fold setNodeTask ts ni))
     = Add (ni_Idle ni) (ni_Used ni)"
  by (induction ts arbitrary: ni) (simp_all add: setNodeTask_frame)

lemma SetNode_Ready_sum:
  assumes "Ready_ni (SetNode le ni node)"
  shows "Add (ni_Idle (SetNode le ni node)) (ni_Used (SetNode le ni node))
           = ni_Allocatable (SetNode le ni node)"
proof (cases node)
  case None
  then show ?thesis using assms
    by (simp add: SetNode_def setNodeState_def Ready_ni_def Let_def)
next
  case (Some n)
  show ?thesis
  proof (cases "le (ni_Used ni) (NewResource (node_Allocatable n))")
    case True
    then show ?thesis using Some
      by (simp add: SetNode_def setNodeState_def Ready_ni_def Let_def
            fold_setNodeTask_frame Add_Empty)
  next
    case False
    then show ?thesis using Some assms
      by (simp add: SetNode_def setNodeState_def Ready_ni_def Let_def)
  qed
qed

lemma ex_AddTask_t2:
  "AddTask (LessEqualOn []) exNode1 (exTask ''t2'' Releasing)
     = Inr (exNode2, (exTask ''t2'' Releasing)\<lparr>ti_NodeName := ''n1''\<rparr>)"
  by (simp add: AddTask_def Let_def allocateIdleResource_def Clone_ti_def Clone_def
        Add_def Sub_def exdefs)

lemma ex_SetNode_ready: "Ready_ni (SetNode (LessEqualOn []) exNode1 (Some exV1Node))"
  by (simp add: SetNode_def setNodeState_def Ready_ni_def Let_def setNodeTask_frame exdefs)

text \<open>
  C2. Let a node have a non-nil \<^verbatim>\<open>Node\<close> and satisfy Idle + Used = Allocatable. Then a
  successful \<^verbatim>\<open>AddTask\<close> leaves a node that satisfies it again, where a Pipelined task
  changes neither Idle nor Used and every other task takes its request from Idle and adds
  it to Used, a Releasing task adding it to Releasing as well; a successful \<^verbatim>\<open>RemoveTask\<close>
  leaves a node that satisfies it; and a \<^verbatim>\<open>SetNode\<close> that leaves the node Ready leaves
  a node that satisfies it.
\<close>

theorem Idle_plus_Used_preserved:
  assumes "ni_Node ni \<noteq> None" and "Add (ni_Idle ni) (ni_Used ni) = ni_Allocatable ni"
  shows "(AddTask le ni task = Inr (ni1, task1) \<longrightarrow>
            Add (ni_Idle ni1) (ni_Used ni1) = ni_Allocatable ni1 \<and>
            ni_Idle ni1 = (if ti_Status task = Pipelined then ni_Idle ni
                           else Sub (ni_Idle ni) (ti_Resreq task)) \<and>
            ni_Used ni1 = (if ti_Status task = Pipelined then ni_Used ni
                           else Add (ni_Used ni) (ti_Resreq task)) \<and>
            ni_Releasing ni1 = (if ti_Status task = Releasing
                                then Add (ni_Releasing ni) (ti_Resreq task)
                                else ni_Releasing ni)) \<and>
         (RemoveTask ni removed = Inr ni2 \<longrightarrow>
            Add (ni_Idle ni2) (ni_Used ni2) = ni_Allocatable ni2) \<and>
         (Ready_ni (SetNode le ni node) \<longrightarrow>
            Add (ni_Idle (SetNode le ni node)) (ni_Used (SetNode le ni node))
              = ni_Allocatable (SetNode le ni node))"
proof (intro conjI impI)
  assume a: "AddTask le ni task = Inr (ni1, task1)"
  show "Add (ni_Idle ni1) (ni_Used ni1) = ni_Allocatable ni1"
    using AddTask_sum[OF a assms(1)] AddTask_vectors(1)[OF a assms(1)] assms(2) by simp
  show "ni_Idle ni1 = (if ti_Status task = Pipelined then ni_Idle ni
                       else Sub (ni_Idle ni) (ti_Resreq task))"
    using AddTask_vectors(2,3,4)[OF a assms(1)] by auto
  show "ni_Used ni1 = (if ti_Status task = Pipelined then ni_Used ni
                       else Add (ni_Used ni) (ti_Resreq task))"
    using AddTask_vectors(2,3,4)[OF a assms(1)] by auto
  show "ni_Releasing ni1 = (if ti_Status task = Releasing
                            then Add (ni_Releasing ni) (ti_Resreq task)
                            else ni_Releasing ni)"
    using AddTask_vectors(2,3,4)[OF a assms(1)] by auto
next
  assume r: "RemoveTask ni removed = Inr ni2"
  show "Add (ni_Idle ni2) (ni_Used ni2) = ni_Allocatable ni2"
    using RemoveTask_vectors[OF r assms(1)] assms(2) by simp
next
  assume "Ready_ni (SetNode le ni node)"
  then show "Add (ni_Idle (SetNode le ni node)) (ni_Used (SetNode le ni node))
              = ni_Allocatable (SetNode le ni node)"
    by (rule SetNode_Ready_sum)
qed

theorem Idle_plus_Used_preserved_witness:
  "ni_Node exNode1 \<noteq> None \<and>
   Add (ni_Idle exNode1) (ni_Used exNode1) = ni_Allocatable exNode1 \<and>
   AddTask (LessEqualOn []) exNode1 (exTask ''t2'' Releasing)
     = Inr (exNode2, (exTask ''t2'' Releasing)\<lparr>ti_NodeName := ''n1''\<rparr>) \<and>
   Add (ni_Idle exNode2) (ni_Used exNode2) = ni_Allocatable exNode2 \<and>
   ni_Releasing exNode2 = Add (ni_Releasing exNode1) exReq \<and>
   RemoveTask exNode1 (exTask ''t1'' Pending) = Inr exNode \<and>
   Add (ni_Idle exNode) (ni_Used exNode) = ni_Allocatable exNode \<and>
   Ready_ni (SetNode (LessEqualOn []) exNode1 (Some exV1Node)) \<and>
   Add (ni_Idle (SetNode (LessEqualOn []) exNode1 (Some exV1Node)))
       (ni_Used (SetNode (LessEqualOn []) exNode1 (Some exV1Node)))
     = ni_Allocatable (SetNode (LessEqualOn []) exNode1 (Some exV1Node))"
proof -
  have h1: "ni_Node exNode1 \<noteq> None" by (simp add: exdefs)
  have h2: "Add (ni_Idle exNode1) (ni_Used exNode1) = ni_Allocatable exNode1"
    by (simp add: Add_def exdefs)
  have r: "RemoveTask exNode1 (exTask ''t1'' Pending) = Inr exNode"
    by (simp add: RemoveTask_def Let_def Add_def Sub_def exdefs)
  have q: "ti_Status (exTask ''t2'' Releasing) = Releasing"
          "ti_Resreq (exTask ''t2'' Releasing) = exReq"
    by (simp_all add: exTask_def)
  from Idle_plus_Used_preserved [OF h1 h2, of "LessEqualOn []" "exTask ''t2'' Releasing" exNode2
      "(exTask ''t2'' Releasing)\<lparr>ti_NodeName := ''n1''\<rparr>" "exTask ''t1'' Pending" exNode
      "Some exV1Node"] h1 h2 ex_AddTask_t2 r ex_SetNode_ready q
  show ?thesis by metis
qed

text \<open>
  C9. After a successful \<^verbatim>\<open>AddTask\<close> the node's table holds, under the key of the task's
  pod, a copy of the task whose \<^verbatim>\<open>NodeName\<close> is the node's name, and the caller's task is
  the task it passed with \<^verbatim>\<open>NodeName\<close> set to the node's name. The node works from its
  copy: a later \<^verbatim>\<open>RemoveTask\<close> gives the same result whatever status and request the
  caller's task has by then.
\<close>

theorem AddTask_stores_clone:
  assumes "AddTask le ni task = Inr (ni1, task1)"
  shows "map_of (ni_Tasks ni1) (PodKey (ti_Pod task)) = Some (task\<lparr>ti_NodeName := ni_Name ni\<rparr>) \<and>
         task1 = task\<lparr>ti_NodeName := ni_Name ni\<rparr> \<and>
         ni_Name ni1 = ni_Name ni \<and>
         RemoveTask ni1 (task1\<lparr>ti_Status := s, ti_Resreq := r\<rparr>) = RemoveTask ni1 task1"
  using assms
  by (auto simp: AddTask_def Let_def allocateIdleResource_def Clone_ti_def Clone_def
        RemoveTask_def update_conv'
      split: if_splits option.splits TaskStatus.splits sum.splits)

theorem AddTask_stores_clone_witness:
  "AddTask (LessEqualOn []) exNode1 (exTask ''t2'' Releasing)
     = Inr (exNode2, (exTask ''t2'' Releasing)\<lparr>ti_NodeName := ''n1''\<rparr>) \<and>
   map_of (ni_Tasks exNode2) ''ns/t2'' = Some ((exTask ''t2'' Releasing)\<lparr>ti_NodeName := ''n1''\<rparr>) \<and>
   RemoveTask exNode2 ((exTask ''t2'' Releasing)\<lparr>ti_NodeName := ''n1'', ti_Status := Pending,
                                                 ti_Resreq := EmptyResource\<rparr>)
     = RemoveTask exNode2 ((exTask ''t2'' Releasing)\<lparr>ti_NodeName := ''n1''\<rparr>)"
proof -
  have k: "PodKey (ti_Pod (exTask ''t2'' Releasing)) = ''ns/t2''"
    by (simp add: exTask_def PodKey_def)
  from AddTask_stores_clone [OF ex_AddTask_t2, where s = Pending and r = EmptyResource]
       k ex_AddTask_t2
  show ?thesis by (simp add: exNode1_def exNode_def)
qed

text \<open>
  C10. \<^verbatim>\<open>SetNode\<close> first recomputes the state. When the node is then not Ready, the reason
  is UnInitialized for a nil node and OutOfSync for a node whose allocatable resources the
  current Used is not less-equal to, and \<^verbatim>\<open>SetNode\<close> returns the node it was given with
  only the state replaced: name, node, the six resource vectors and the tasks are as they
  were. When the node is Ready, the node object is not nil, Used is less-equal its
  allocatable resources, and name, node and vectors are replaced, Idle, Used, Releasing and
  Pipelined being rebuilt by the loop over the tasks.
\<close>

theorem SetNode_frame:
  "(\<not> Ready_ni (SetNode le ni node) \<longrightarrow>
      SetNode le ni node =
        ni\<lparr>ni_State := \<lparr>Phase = NotReady,
                         Reason = (if node = None then ''UnInitialized'' else ''OutOfSync'')\<rparr>\<rparr> \<and>
      (case node of None \<Rightarrow> True
       | Some n \<Rightarrow> \<not> le (ni_Used ni) (NewResource (node_Allocatable n)))) \<and>
   (Ready_ni (SetNode le ni node) \<longrightarrow>
      (case node of None \<Rightarrow> False
       | Some n \<Rightarrow>
           le (ni_Used ni) (NewResource (node_Allocatable n)) \<and>
           SetNode le ni node =
             fold setNodeTask (map snd (ni_Tasks ni))
               (ni\<lparr>ni_State := \<lparr>Phase = Ready, Reason = ''''\<rparr>,
                   ni_Name := node_Name n,
                   ni_Node := Some n,
                   ni_Allocatable := NewResource (node_Allocatable n),
                   ni_Capability := NewResource (node_Capacity n),
                   ni_Releasing := EmptyResource,
                   ni_Pipelined := EmptyResource,
                   ni_Idle := NewResource (node_Allocatable n),
                   ni_Used := EmptyResource\<rparr>)))"
proof (cases node)
  case None
  then show ?thesis
    by (simp add: SetNode_def setNodeState_def Ready_ni_def Let_def)
next
  case (Some n)
  then show ?thesis
    by (cases "le (ni_Used ni) (NewResource (node_Allocatable n))")
       (simp_all add: SetNode_def setNodeState_def Ready_ni_def Let_def fold_setNodeTask_frame)
qed

theorem SetNode_frame_witness:
  "\<not> Ready_ni (SetNode (LessEqualOn []) exNode1 None) \<and>
   SetNode (LessEqualOn []) exNode1 None
     = exNode1\<lparr>ni_State := \<lparr>Phase = NotReady, Reason = ''UnInitialized''\<rparr>\<rparr> \<and>
   \<not> Ready_ni (SetNode (LessEqualOn []) exNode1 (Some exSmallV1Node)) \<and>
   SetNode (LessEqualOn []) exNode1 (Some exSmallV1Node)
     = exNode1\<lparr>ni_State := \<lparr>Phase = NotReady, Reason = ''OutOfSync''\<rparr>\<rparr> \<and>
   Ready_ni (SetNode (LessEqualOn []) exNode1 (Some exV1Node)) \<and>
   SetNode (LessEqualOn []) exNode1 (Some exV1Node) = exNode1"
proof -
  have a: "\<not> Ready_ni (SetNode (LessEqualOn []) exNode1 None)"
    by (simp add: SetNode_def setNodeState_def Ready_ni_def Let_def)
  have b: "\<not> Ready_ni (SetNode (LessEqualOn []) exNode1 (Some exSmallV1Node))"
    by (simp add: SetNode_def setNodeState_def Ready_ni_def Let_def exdefs)
  have c: "fold setNodeTask (map snd (ni_Tasks exNode1))
             (exNode1\<lparr>ni_State := \<lparr>Phase = Ready, Reason = ''''\<rparr>,
                   ni_Name := node_Name exV1Node,
                   ni_Node := Some exV1Node,
                   ni_Allocatable := NewResource (node_Allocatable exV1Node),
                   ni_Capability := NewResource (node_Capacity exV1Node),
                   ni_Releasing := EmptyResource,
                   ni_Pipelined := EmptyResource,
                   ni_Idle := NewResource (node_Allocatable exV1Node),
                   ni_Used := EmptyResource\<rparr>) = exNode1"
    by (simp add: setNodeTask_def Add_def Sub_def exdefs)
  from SetNode_frame [of "LessEqualOn []" exNode1 None]
       SetNode_frame [of "LessEqualOn []" exNode1 "Some exSmallV1Node"]
       SetNode_frame [of "LessEqualOn []" exNode1 "Some exV1Node"]
       a b c ex_SetNode_ready
  show ?thesis by simp
qed

text \<open>
  C7. For every node, \<^verbatim>\<open>FutureIdle\<close> returns Idle + Releasing - Pipelined in every
  dimension (milli-CPU, memory and each scalar), and the node, with its Idle, Releasing
  and Pipelined vectors, is the same after the call: the arithmetic is done on the clone.
\<close>

theorem FutureIdle_value:
  "fst (FutureIdle ni) = Sub (Add (ni_Idle ni) (ni_Releasing ni)) (ni_Pipelined ni) \<and>
   MilliCPU (fst (FutureIdle ni)) =
     MilliCPU (ni_Idle ni) + MilliCPU (ni_Releasing ni) - MilliCPU (ni_Pipelined ni) \<and>
   Memory (fst (FutureIdle ni)) =
     Memory (ni_Idle ni) + Memory (ni_Releasing ni) - Memory (ni_Pipelined ni) \<and>
   ScalarResources (fst (FutureIdle ni)) name =
     ScalarResources (ni_Idle ni) name + ScalarResources (ni_Releasing ni) name
       - ScalarResources (ni_Pipelined ni) name \<and>
   snd (FutureIdle ni) = ni"
  by (simp add: FutureIdle_def Clone_def Add_def Sub_def Let_def)

section \<open>Statement\<close>

lemma updateStatusInSession_frame:
  assumes "updateStatusInSession ok sn a st = Inr sn1"
  shows "ssn_Nodes sn1 = ssn_Nodes sn" "ssn_cache sn1 = ssn_cache sn" "ssn_calls sn1 = ssn_calls sn"
    "ssn_events sn1 = ssn_events sn"
    "ssn_tasks sn1 = (ssn_tasks sn)(a := (ssn_tasks sn a)\<lparr>ti_Status := st\<rparr>)"
    "ok (ti_Status (ssn_tasks sn a)) st"
    "ssn_Jobs sn (ti_Job (ssn_tasks sn a)) \<noteq> None"
    "\<And>j. (ssn_Jobs sn1 j = None) = (ssn_Jobs sn j = None)"
  using assms
  by (auto simp: updateStatusInSession_def UpdateTaskStatus_def split: option.splits if_splits)

lemma updateStatusInSession_ok:
  assumes "ssn_Jobs sn (ti_Job (ssn_tasks sn a)) = Some job" "ok (ti_Status (ssn_tasks sn a)) st"
  shows "\<exists>sn1. updateStatusInSession ok sn a st = Inr sn1"
  using assms by (simp add: updateStatusInSession_def UpdateTaskStatus_def)

lemma updateStatusLogged_frame:
  "ssn_Nodes (updateStatusLogged ok sn a st) = ssn_Nodes sn"
  "ssn_cache (updateStatusLogged ok sn a st) = ssn_cache sn"
  "ssn_calls (updateStatusLogged ok sn a st) = ssn_calls sn"
  "ssn_events (updateStatusLogged ok sn a st) = ssn_events sn"
  "ti_NodeName (ssn_tasks (updateStatusLogged ok sn a st) b) = ti_NodeName (ssn_tasks sn b)"
  "b \<noteq> a \<Longrightarrow> ssn_tasks (updateStatusLogged ok sn a st) b = ssn_tasks sn b"
  "(ssn_Jobs (updateStatusLogged ok sn a st) j = None) = (ssn_Jobs sn j = None)"
  by (auto simp: updateStatusLogged_def updateStatusInSession_def UpdateTaskStatus_def
      split: option.splits if_splits sum.splits)

lemma updateStatusLogged_unchanged:
  "ssn_Jobs sn (ti_Job (ssn_tasks sn a)) = None \<or> \<not> ok (ti_Status (ssn_tasks sn a)) st
     \<Longrightarrow> updateStatusLogged ok sn a st = sn"
  by (auto simp: updateStatusLogged_def updateStatusInSession_def UpdateTaskStatus_def
      split: option.splits if_splits sum.splits)

lemma updateStatusLogged_sets:
  "ssn_Jobs sn (ti_Job (ssn_tasks sn a)) \<noteq> None \<Longrightarrow> ok (ti_Status (ssn_tasks sn a)) st
     \<Longrightarrow> ssn_tasks (updateStatusLogged ok sn a st) = (ssn_tasks sn)(a := (ssn_tasks sn a)\<lparr>ti_Status := st\<rparr>)"
  by (auto simp: updateStatusLogged_def updateStatusInSession_def UpdateTaskStatus_def
      split: option.splits if_splits sum.splits)

lemma AddTask_task: "AddTask le ni t = Inr r \<Longrightarrow> snd r = t\<lparr>ti_NodeName := ni_Name ni\<rparr>"
  by (auto simp: AddTask_def Let_def split: if_splits option.splits sum.splits)

lemma RemoveTask_name:
  "RemoveTask ni t = Inr ni1 \<Longrightarrow> ni_Name ni1 = ni_Name ni \<and> ni_Node ni1 = ni_Node ni"
  by (auto simp: RemoveTask_def Let_def split: option.splits TaskStatus.splits)

lemma UpdateTask_task:
  "UpdateTask le ni t = Inr r \<Longrightarrow> snd r = t\<lparr>ti_NodeName := ni_Name ni\<rparr>"
  by (auto simp: UpdateTask_def dest!: AddTask_task RemoveTask_name split: sum.splits)


lemma updateTaskOnNode_absent:
  "ssn_Nodes sn (ti_NodeName (ssn_tasks sn a)) = None \<Longrightarrow> updateTaskOnNode le sn a = Some sn"
  by (simp add: updateTaskOnNode_def)

lemma discardLoop_snoc:
  "discardLoop ok le (ops @ [op]) sn =
     (case discardOp ok le op sn of None \<Rightarrow> None | Some sn1 \<Rightarrow> discardLoop ok le ops sn1)"
  by (induction ops arbitrary: sn) (auto split: option.splits)








lemma Add_Sub_same [simp]: "Add (Sub a r) r = a" "Sub (Add a r) r = a"
  by (simp_all add: Add_def Sub_def)



lemma TaskStatus_case3:
  "(case s of Pipelined \<Rightarrow> p | Releasing \<Rightarrow> r | _ \<Rightarrow> d)
     = (if s = Pipelined then p else if s = Releasing then r else d)"
  by (cases s) simp_all

lemma sameNode_refl: "sameNode n n"
  by (simp add: sameNode_def copiesAgree_def option.rel_refl)

lemma copiesAgree_lookup:
  "copiesAgree n n' \<Longrightarrow> map_of (ni_Tasks n) k = None \<Longrightarrow> map_of (ni_Tasks n') k = None"
  "copiesAgree n n' \<Longrightarrow> map_of (ni_Tasks n) k = Some c \<Longrightarrow>
     \<exists>c'. map_of (ni_Tasks n') k = Some c' \<and> ti_Status c' = ti_Status c \<and> ti_Resreq c' = ti_Resreq c"
proof -
  assume a: "copiesAgree n n'" and b: "map_of (ni_Tasks n) k = None"
  from a have "rel_option (\<lambda>c c'. ti_Status c = ti_Status c' \<and> ti_Resreq c = ti_Resreq c')
                 (map_of (ni_Tasks n) k) (map_of (ni_Tasks n') k)"
    by (simp add: copiesAgree_def)
  with b show "map_of (ni_Tasks n') k = None" by simp
next
  assume a: "copiesAgree n n'" and b: "map_of (ni_Tasks n) k = Some c"
  from a have "rel_option (\<lambda>c c'. ti_Status c = ti_Status c' \<and> ti_Resreq c = ti_Resreq c')
                 (map_of (ni_Tasks n) k) (map_of (ni_Tasks n') k)"
    by (simp add: copiesAgree_def)
  with b show "\<exists>c'. map_of (ni_Tasks n') k = Some c' \<and> ti_Status c' = ti_Status c \<and>
                  ti_Resreq c' = ti_Resreq c"
    by (auto simp: option_rel_Some1)
qed

text \<open>What a successful AddTask leaves.\<close>

lemma AddTask_result:
  assumes "AddTask le n t = Inr (n1, t1)"
  shows "map_of (ni_Tasks n) (PodKey (ti_Pod t)) = None"
    and "ni_Tasks n1 = AList.update (PodKey (ti_Pod t)) (t\<lparr>ti_NodeName := ni_Name n\<rparr>) (ni_Tasks n)"
    and "ni_Name n1 = ni_Name n" "ni_Node n1 = ni_Node n" "ni_State n1 = ni_State n"
    and "ni_Allocatable n1 = ni_Allocatable n" "ni_Capability n1 = ni_Capability n"
    and "t1 = t\<lparr>ti_NodeName := ni_Name n\<rparr>"
    and "ni_Node n = None \<Longrightarrow> nodeVectors n1 = nodeVectors n"
    and "ni_Node n \<noteq> None \<Longrightarrow> ti_Status t = Pipelined \<Longrightarrow>
           nodeVectors n1 = (ni_Idle n, ni_Used n, ni_Releasing n, Add (ni_Pipelined n) (ti_Resreq t))"
    and "ni_Node n \<noteq> None \<Longrightarrow> ti_Status t = Releasing \<Longrightarrow>
           nodeVectors n1 = (Sub (ni_Idle n) (ti_Resreq t), Add (ni_Used n) (ti_Resreq t),
                             Add (ni_Releasing n) (ti_Resreq t), ni_Pipelined n) \<and>
           le (ti_Resreq t) (ni_Idle n)"
    and "ni_Node n \<noteq> None \<Longrightarrow> ti_Status t \<noteq> Pipelined \<Longrightarrow> ti_Status t \<noteq> Releasing \<Longrightarrow>
           nodeVectors n1 = (Sub (ni_Idle n) (ti_Resreq t), Add (ni_Used n) (ti_Resreq t),
                             ni_Releasing n, ni_Pipelined n) \<and>
           le (ti_Resreq t) (ni_Idle n)"
  using assms
  by (auto simp: AddTask_def Let_def allocateIdleResource_def Clone_ti_def Clone_def nodeVectors_def
             TaskStatus_case3
           split: if_splits option.splits)

text \<open>When AddTask succeeds.\<close>

lemma AddTask_succeeds:
  assumes "\<not> (length (ti_NodeName t) > 0 \<and> length (ni_Name n) > 0 \<and> ti_NodeName t \<noteq> ni_Name n)"
    and "map_of (ni_Tasks n) (PodKey (ti_Pod t)) = None"
    and "ni_Node n \<noteq> None \<Longrightarrow> ti_Status t \<noteq> Pipelined \<Longrightarrow> le (ti_Resreq t) (ni_Idle n)"
  shows "\<exists>r. AddTask le n t = Inr r"
  using assms
  by (auto simp: AddTask_def Let_def allocateIdleResource_def Clone_ti_def Clone_def
             TaskStatus_case3
           split: if_splits option.splits)

lemma RemoveTask_result:
  assumes "map_of (ni_Tasks n) (PodKey (ti_Pod t)) = Some c"
  shows "\<exists>n1. RemoveTask n t = Inr n1 \<and>
           ni_Tasks n1 = AList.delete (PodKey (ti_Pod t)) (ni_Tasks n) \<and>
           ni_Name n1 = ni_Name n \<and> ni_Node n1 = ni_Node n \<and> ni_State n1 = ni_State n \<and>
           ni_Allocatable n1 = ni_Allocatable n \<and> ni_Capability n1 = ni_Capability n \<and>
           nodeVectors n1 =
             (if ni_Node n = None then nodeVectors n
              else if ti_Status c = Pipelined
                then (ni_Idle n, ni_Used n, ni_Releasing n, Sub (ni_Pipelined n) (ti_Resreq c))
              else if ti_Status c = Releasing
                then (Add (ni_Idle n) (ti_Resreq c), Sub (ni_Used n) (ti_Resreq c),
                      Sub (ni_Releasing n) (ti_Resreq c), ni_Pipelined n)
              else (Add (ni_Idle n) (ti_Resreq c), Sub (ni_Used n) (ti_Resreq c),
                    ni_Releasing n, ni_Pipelined n))"
  using assms
  by (auto simp: RemoveTask_def Let_def nodeVectors_def TaskStatus_case3)

lemma RemoveTask_absent:
  "map_of (ni_Tasks n) (PodKey (ti_Pod t)) = None \<Longrightarrow> RemoveTask n t = Inl TaskNotFoundOnHost"
  by (simp add: RemoveTask_def)

text \<open>Node level: removing what AddTask added gives the node back.\<close>

lemma add_then_remove:
  assumes a: "AddTask le n t = Inr (n1, t1)" and s: "sameNode n1 n1'"
    and p: "ti_Pod tx = ti_Pod t"
  shows "\<exists>n'. RemoveTask n1' tx = Inr n' \<and> sameNode n n'"
proof -
  let ?k = "PodKey (ti_Pod t)"
  note r = AddTask_result[OF a]
  have "map_of (ni_Tasks n1) ?k = Some (t\<lparr>ti_NodeName := ni_Name n\<rparr>)"
    by (simp add: r(2) update_conv')
  with s obtain c' where c': "map_of (ni_Tasks n1') ?k = Some c'"
      "ti_Status c' = ti_Status t" "ti_Resreq c' = ti_Resreq t"
    using copiesAgree_lookup(2)[of n1 n1' ?k] by (auto simp: sameNode_def)
  from RemoveTask_result[of n1' tx c'] c' p obtain n' where n':
    "RemoveTask n1' tx = Inr n'"
    "ni_Tasks n' = AList.delete ?k (ni_Tasks n1')"
    "ni_Name n' = ni_Name n1'" "ni_Node n' = ni_Node n1'" "ni_State n' = ni_State n1'"
    "ni_Allocatable n' = ni_Allocatable n1'" "ni_Capability n' = ni_Capability n1'"
    "nodeVectors n' =
             (if ni_Node n1' = None then nodeVectors n1'
              else if ti_Status t = Pipelined
                then (ni_Idle n1', ni_Used n1', ni_Releasing n1', Sub (ni_Pipelined n1') (ti_Resreq t))
              else if ti_Status t = Releasing
                then (Add (ni_Idle n1') (ti_Resreq t), Sub (ni_Used n1') (ti_Resreq t),
                      Sub (ni_Releasing n1') (ti_Resreq t), ni_Pipelined n1')
              else (Add (ni_Idle n1') (ti_Resreq t), Sub (ni_Used n1') (ti_Resreq t),
                    ni_Releasing n1', ni_Pipelined n1'))"
    by auto
  have v1: "nodeVectors n1' = nodeVectors n1" using s by (simp add: sameNode_def nodeVectors_def)
  have nd: "ni_Node n1' = ni_Node n" using s r(4) by (simp add: sameNode_def)
  have vec: "nodeVectors n' = nodeVectors n"
  proof (cases "ni_Node n = None")
    case True
    then show ?thesis using n'(8) nd v1 r(9) by simp
  next
    case False
    then show ?thesis
      using n'(8) nd v1 r(10,11,12)
      by (cases "ti_Status t = Pipelined"; cases "ti_Status t = Releasing")
         (auto simp: nodeVectors_def)
  qed
  have ca: "copiesAgree n n'"
    unfolding copiesAgree_def
  proof
    fix k
    show "rel_option (\<lambda>c c'. ti_Status c = ti_Status c' \<and> ti_Resreq c = ti_Resreq c')
            (map_of (ni_Tasks n) k) (map_of (ni_Tasks n') k)"
    proof (cases "k = ?k")
      case True
      then show ?thesis using r(1) by (simp add: n'(2) delete_conv')
    next
      case False
      have e1: "map_of (ni_Tasks n') k = map_of (ni_Tasks n1') k"
        using False by (simp add: n'(2) delete_conv')
      have e2: "map_of (ni_Tasks n1) k = map_of (ni_Tasks n) k"
        using False by (simp add: r(2) update_conv')
      have "rel_option (\<lambda>c c'. ti_Status c = ti_Status c' \<and> ti_Resreq c = ti_Resreq c')
              (map_of (ni_Tasks n1) k) (map_of (ni_Tasks n1') k)"
        using s by (simp add: sameNode_def copiesAgree_def)
      then show ?thesis by (simp only: e1 e2)
    qed
  qed
  have "sameNode n n'"
    unfolding sameNode_def
    using vec ca n'(3-7) s r(3-7) by (simp add: sameNode_def nodeVectors_def)
  with n'(1) show ?thesis by blast
qed

lemma sameNode_fields:
  "sameNode n n' \<Longrightarrow> ni_Name n' = ni_Name n \<and> ni_Node n' = ni_Node n \<and> ni_State n' = ni_State n \<and>
     ni_Allocatable n' = ni_Allocatable n \<and> ni_Capability n' = ni_Capability n \<and>
     nodeVectors n' = nodeVectors n \<and> copiesAgree n n'"
  by (simp add: sameNode_def nodeVectors_def)

lemma sameNodeI:
  "ni_Name n' = ni_Name n \<Longrightarrow> ni_Node n' = ni_Node n \<Longrightarrow> ni_State n' = ni_State n \<Longrightarrow>
     ni_Allocatable n' = ni_Allocatable n \<Longrightarrow> ni_Capability n' = ni_Capability n \<Longrightarrow>
     nodeVectors n' = nodeVectors n \<Longrightarrow> copiesAgree n n' \<Longrightarrow> sameNode n n'"
  by (simp add: sameNode_def nodeVectors_def)

lemma copiesAgree_replace:
  assumes ca: "copiesAgree m m'"
    and t: "\<And>k. k \<noteq> key \<Longrightarrow> map_of (ni_Tasks n) k = map_of (ni_Tasks m) k"
    and t': "\<And>k. k \<noteq> key \<Longrightarrow> map_of (ni_Tasks n') k = map_of (ni_Tasks m') k"
    and k: "rel_option (\<lambda>c c'. ti_Status c = ti_Status c' \<and> ti_Resreq c = ti_Resreq c')
              (map_of (ni_Tasks n) key) (map_of (ni_Tasks n') key)"
  shows "copiesAgree n n'"
  unfolding copiesAgree_def
proof
  fix k
  show "rel_option (\<lambda>c c'. ti_Status c = ti_Status c' \<and> ti_Resreq c = ti_Resreq c')
            (map_of (ni_Tasks n) k) (map_of (ni_Tasks n') k)"
  proof (cases "k = key")
    case True
    then show ?thesis using k by simp
  next
    case False
    have "rel_option (\<lambda>c c'. ti_Status c = ti_Status c' \<and> ti_Resreq c = ti_Resreq c')
              (map_of (ni_Tasks m) k) (map_of (ni_Tasks m') k)"
      using ca by (simp add: copiesAgree_def)
    then show ?thesis by (simp only: t[OF False] t'[OF False])
  qed
qed

text \<open>Node level: UpdateTask of a running copy, then UpdateTask back to Running.\<close>

lemma update_then_update:
  assumes c: "map_of (ni_Tasks n) (PodKey (ti_Pod t)) = Some c"
      "ti_Status c = Running" "ti_Resreq c = ti_Resreq t"
    and sf: "ti_Status t = Releasing \<or> ti_Status t = Running"
    and fwd: "UpdateTask le n t = Inr (n1, t1)"
    and s: "sameNode n1 n1'"
    and tx: "ti_Pod tx = ti_Pod t" "ti_Resreq tx = ti_Resreq t" "ti_Status tx = Running"
      "ti_NodeName tx = ni_Name n"
  shows "\<exists>n' r. UpdateTask le n1' tx = Inr (n', r) \<and> sameNode n n'"
proof -
  let ?k = "PodKey (ti_Pod t)"
  let ?r = "ti_Resreq t"
  from RemoveTask_result[OF c(1)] obtain nr where nr:
    "RemoveTask n t = Inr nr" "ni_Tasks nr = AList.delete ?k (ni_Tasks n)"
    "ni_Name nr = ni_Name n" "ni_Node nr = ni_Node n" "ni_State nr = ni_State n"
    "ni_Allocatable nr = ni_Allocatable n" "ni_Capability nr = ni_Capability n"
    "nodeVectors nr = (if ni_Node n = None then nodeVectors n
                       else (Add (ni_Idle n) ?r, Sub (ni_Used n) ?r, ni_Releasing n, ni_Pipelined n))"
    using c(2,3) by auto
  from fwd nr(1) have a: "AddTask le nr t = Inr (n1, t1)"
    by (auto simp: UpdateTask_def split: sum.splits)
  note ar = AddTask_result[OF a]
  \<comment> \<open>the copy in the related node\<close>
  have "map_of (ni_Tasks n1) ?k = Some (t\<lparr>ti_NodeName := ni_Name nr\<rparr>)"
    by (simp add: ar(2) update_conv')
  with s obtain c1 where c1: "map_of (ni_Tasks n1') ?k = Some c1"
      "ti_Status c1 = ti_Status t" "ti_Resreq c1 = ?r"
    using copiesAgree_lookup(2)[of n1 n1' ?k] by (auto simp: sameNode_def)
  note f1 = sameNode_fields[OF s]
  have k': "PodKey (ti_Pod tx) = ?k" using tx(1) by simp
  from RemoveTask_result[of n1' tx c1] c1 k' obtain nr' where nr':
    "RemoveTask n1' tx = Inr nr'" "ni_Tasks nr' = AList.delete ?k (ni_Tasks n1')"
    "ni_Name nr' = ni_Name n1'" "ni_Node nr' = ni_Node n1'" "ni_State nr' = ni_State n1'"
    "ni_Allocatable nr' = ni_Allocatable n1'" "ni_Capability nr' = ni_Capability n1'"
    "nodeVectors nr' =
       (if ni_Node n1' = None then nodeVectors n1'
        else if ti_Status t = Releasing
          then (Add (ni_Idle n1') ?r, Sub (ni_Used n1') ?r, Sub (ni_Releasing n1') ?r, ni_Pipelined n1')
        else (Add (ni_Idle n1') ?r, Sub (ni_Used n1') ?r, ni_Releasing n1', ni_Pipelined n1'))"
    using sf by auto
  have nd: "ni_Node n1' = ni_Node n" using f1 ar(4) nr(4) by simp
  \<comment> \<open>the vectors after the second removal are those after the first\<close>
  have v: "nodeVectors nr' = nodeVectors nr"
  proof (cases "ni_Node n = None")
    case True
    then show ?thesis using nr'(8) nr(8) nd f1 ar(9) nr(4) by simp
  next
    case False
    then have nn: "ni_Node nr \<noteq> None" using nr(4) by simp
    show ?thesis
    proof (cases "ti_Status t = Releasing")
      case True
      then show ?thesis
        using nr'(8) nr(8) nd f1 ar(11)[OF nn True] False
        by (auto simp: nodeVectors_def)
    next
      case False': False
      then have "ti_Status t \<noteq> Pipelined" using sf by auto
      then show ?thesis
        using nr'(8) nr(8) nd f1 ar(12)[OF nn _ False'] False False'
        by (auto simp: nodeVectors_def)
    qed
  qed
  \<comment> \<open>the second addition succeeds\<close>
  have le: "ni_Node nr' \<noteq> None \<Longrightarrow> le (ti_Resreq tx) (ni_Idle nr')"
  proof -
    assume "ni_Node nr' \<noteq> None"
    then have nn: "ni_Node nr \<noteq> None" using nr'(4) nd nr(4) by simp
    have "ti_Status t \<noteq> Pipelined" using sf by auto
    then have "le ?r (ni_Idle nr)"
      using ar(11)[OF nn] ar(12)[OF nn] by (cases "ti_Status t = Releasing") auto
    moreover have "ni_Idle nr' = ni_Idle nr" using v by (simp add: nodeVectors_def)
    ultimately show ?thesis using tx(2) by simp
  qed
  have "\<exists>r. AddTask le nr' tx = Inr r"
  proof (rule AddTask_succeeds)
    show "\<not> (0 < length (ti_NodeName tx) \<and> 0 < length (ni_Name nr') \<and> ti_NodeName tx \<noteq> ni_Name nr')"
      using tx(4) nr'(3) f1 ar(3) nr(3) by simp
    show "map_of (ni_Tasks nr') (PodKey (ti_Pod tx)) = None"
      by (simp add: k' nr'(2) delete_conv')
    show "ni_Node nr' \<noteq> None \<Longrightarrow> ti_Status tx \<noteq> Pipelined \<Longrightarrow> le (ti_Resreq tx) (ni_Idle nr')"
      using le by simp
  qed
  then obtain n' r where a': "AddTask le nr' tx = Inr (n', r)" by fastforce
  note ar' = AddTask_result[OF a']
  have u: "UpdateTask le n1' tx = Inr (n', r)"
    by (simp add: UpdateTask_def nr'(1) a')
  \<comment> \<open>vectors of the result\<close>
  have vec: "nodeVectors n' = nodeVectors n"
  proof (cases "ni_Node n = None")
    case True
    then have "ni_Node nr' = None" using nr'(4) nd by simp
    then show ?thesis using ar'(9) v nr(8) True by simp
  next
    case False
    then have nn: "ni_Node nr' \<noteq> None" using nr'(4) nd by simp
    have "nodeVectors n' = (Sub (ni_Idle nr') (ti_Resreq tx), Add (ni_Used nr') (ti_Resreq tx),
                             ni_Releasing nr', ni_Pipelined nr')"
      using ar'(12)[OF nn] tx(3) by simp
    then show ?thesis using v nr(8) False tx(2) by (auto simp: nodeVectors_def)
  qed
  have ca: "copiesAgree n n'"
  proof (rule copiesAgree_replace[where key = ?k and m = n1 and m' = n1'])
    show "copiesAgree n1 n1'" using f1 by simp
    show "\<And>k. k \<noteq> ?k \<Longrightarrow> map_of (ni_Tasks n) k = map_of (ni_Tasks n1) k"
      by (simp add: ar(2) nr(2) update_conv' delete_conv')
    show "\<And>k. k \<noteq> ?k \<Longrightarrow> map_of (ni_Tasks n') k = map_of (ni_Tasks n1') k"
      by (simp add: ar'(2) nr'(2) k' update_conv' delete_conv')
    show "rel_option (\<lambda>c c'. ti_Status c = ti_Status c' \<and> ti_Resreq c = ti_Resreq c')
              (map_of (ni_Tasks n) ?k) (map_of (ni_Tasks n') ?k)"
      using c tx by (simp add: ar'(2) k' update_conv')
  qed
  have "sameNode n n'"
    by (rule sameNodeI)
       (use vec ca ar'(3-7) nr'(3-7) f1 ar(3-7) nr(3-7) in simp_all)
  with u show ?thesis by blast
qed

lemma restored_task_eq:
  "restored sn sn' \<Longrightarrow> ti_Status (ssn_tasks sn b) \<noteq> Pending \<Longrightarrow> ssn_tasks sn' b = ssn_tasks sn b"
  unfolding restored_def by blast

lemma restored_task_rel:
  "restored sn sn' \<Longrightarrow> \<exists>nn vr. ssn_tasks sn' b = (ssn_tasks sn b)\<lparr>ti_NodeName := nn, ti_VolumeReady := vr\<rparr>"
  unfolding restored_def by blast

lemma restored_status:
  "restored sn sn' \<Longrightarrow> ti_Status (ssn_tasks sn' b) = ti_Status (ssn_tasks sn b)"
  using restored_task_rel[of sn sn' b] by auto

lemma restored_jobs:
  "restored sn sn' \<Longrightarrow> (ssn_Jobs sn' j = None) = (ssn_Jobs sn j = None)"
  unfolding restored_def by blast

lemma restored_nodes:
  "restored sn sn' \<Longrightarrow> rel_option sameNode (ssn_Nodes sn k) (ssn_Nodes sn' k)"
  unfolding restored_def by blast

lemma restored_node_None:
  "restored sn sn' \<Longrightarrow> ssn_Nodes sn k = None \<Longrightarrow> ssn_Nodes sn' k = None"
  using restored_nodes[of sn sn' k] by simp

lemma restored_node_Some:
  "restored sn sn' \<Longrightarrow> ssn_Nodes sn k = Some n \<Longrightarrow> \<exists>n'. ssn_Nodes sn' k = Some n' \<and> sameNode n n'"
  using restored_nodes[of sn sn' k] by (simp add: option_rel_Some1)

lemma task_rel_refl: "\<exists>nn vr. t = t\<lparr>ti_NodeName := nn, ti_VolumeReady := vr\<rparr>"
  by (rule exI[of _ "ti_NodeName t"], rule exI[of _ "ti_VolumeReady t"]) simp

lemma restored_refl: "restored sn sn"
  by (simp add: restored_def option.rel_refl sameNode_refl task_rel_refl)

lemma restoredI:
  assumes "\<And>b. ti_Status (ssn_tasks sn b) \<noteq> Pending \<Longrightarrow> ssn_tasks sn' b = ssn_tasks sn b"
    and "\<And>b.
            \<exists>nn vr. ssn_tasks sn' b = (ssn_tasks sn b)\<lparr>ti_NodeName := nn, ti_VolumeReady := vr\<rparr>"
    and "\<And>j. (ssn_Jobs sn' j = None) = (ssn_Jobs sn j = None)"
    and "\<And>k. rel_option sameNode (ssn_Nodes sn k) (ssn_Nodes sn' k)"
  shows "restored sn sn'"
  using assms by (simp add: restored_def)

lemma restored_fireEvent: "restored (fireEvent e sn) sn' = restored sn sn'"
  "restored sn (fireEvent e sn') = restored sn sn'"
  by (simp_all add: restored_def fireEvent_def)

lemma addTaskToNode_Inr:
  assumes "addTaskToNode le sn a h = Inr sn1"
  shows "\<exists>node node1 t1. ssn_Nodes sn h = Some node \<and> AddTask le node (ssn_tasks sn a) = Inr (node1, t1) \<and>
           ssn_Nodes sn1 = (ssn_Nodes sn)(h \<mapsto> node1) \<and> ssn_tasks sn1 = (ssn_tasks sn)(a := t1) \<and>
           ssn_Jobs sn1 = ssn_Jobs sn"
  using assms by (auto simp: addTaskToNode_def split: option.splits sum.splits)

lemma removeTaskFromNode_frame:
  "ssn_tasks (removeTaskFromNode sn a) = ssn_tasks sn"
  "ssn_Jobs (removeTaskFromNode sn a) = ssn_Jobs sn"
  by (auto simp: removeTaskFromNode_def split: option.splits sum.splits)

lemma removeTaskFromNode_Some:
  "ssn_Nodes sn (ti_NodeName (ssn_tasks sn a)) = Some n \<Longrightarrow> RemoveTask n (ssn_tasks sn a) = Inr n1 \<Longrightarrow>
     ssn_Nodes (removeTaskFromNode sn a) = (ssn_Nodes sn)(ti_NodeName (ssn_tasks sn a) \<mapsto> n1)"
  by (auto simp: removeTaskFromNode_def split: option.splits sum.splits)

text \<open>Undoing an Allocate or a Pipeline (unallocate and unpipeline run the same steps).\<close>

lemma undo_added:
  assumes pend: "ti_Status (ssn_tasks sn a) = Pending"
    and okp: "ok sf Pending" and sfp: "sf \<noteq> Pending"
    and idx: "indexedAt sn h"
    and job: "ssn_Jobs sn (ti_Job (ssn_tasks sn a)) \<noteq> None"
    and A1: "ssn_Nodes snA = ssn_Nodes sn"
    and A2: "\<And>j. (ssn_Jobs snA j = None) = (ssn_Jobs sn j = None)"
    and A3: "ssn_tasks snA = (ssn_tasks sn)(a := (ssn_tasks sn a)\<lparr>ti_VolumeReady := vb, ti_Status := sf\<rparr>)"
    and add: "addTaskToNode le snA a h = Inr snB"
    and r: "restored snB sn1'"
  shows "restored sn (unallocate ok sn1' a x)"
proof -
  let ?t = "ssn_tasks sn a"
  let ?tA = "?t\<lparr>ti_VolumeReady := vb, ti_Status := sf\<rparr>"
  from addTaskToNode_Inr[OF add] obtain node node1 t1 where n:
    "ssn_Nodes snA h = Some node" "AddTask le node (ssn_tasks snA a) = Inr (node1, t1)"
    "ssn_Nodes snB = (ssn_Nodes snA)(h \<mapsto> node1)" "ssn_tasks snB = (ssn_tasks snA)(a := t1)"
    "ssn_Jobs snB = ssn_Jobs snA"
    by blast
  have tA: "ssn_tasks snA a = ?tA" by (simp add: A3)
  have nm: "ni_Name node = h" using idx n(1) A1 by (simp add: indexedAt_def)
  have t1: "t1 = ?tA\<lparr>ti_NodeName := h\<rparr>"
    using AddTask_result(8)[OF n(2)] tA nm by simp
  have tB: "ssn_tasks snB a = t1" by (simp add: n(4))
  have st1: "ti_Status (ssn_tasks snB a) \<noteq> Pending" using tB t1 sfp by simp
  have h1: "ssn_tasks sn1' a = t1" using restored_task_eq[OF r st1] tB by simp
  \<comment> \<open>the status update of the undo\<close>
  let ?snU = "updateStatusLogged ok sn1' a Pending"
  have jb: "ssn_Jobs sn1' (ti_Job (ssn_tasks sn1' a)) \<noteq> None"
    using restored_jobs[OF r, of "ti_Job ?t"] n(5) A2[of "ti_Job ?t"] job h1 t1 by simp
  have okU: "ok (ti_Status (ssn_tasks sn1' a)) Pending" using h1 t1 okp by simp
  have hU: "ssn_tasks ?snU = (ssn_tasks sn1')(a := t1\<lparr>ti_Status := Pending\<rparr>)"
    using updateStatusLogged_sets[where ok = ok and sn = sn1' and a = a and st = Pending, OF jb okU] h1
    by simp
  have nU: "ssn_Nodes ?snU = ssn_Nodes sn1'" by (simp add: updateStatusLogged_frame)
  \<comment> \<open>the removal from the node\<close>
  from restored_node_Some[OF r, of h node1] n(3) obtain node1' where n1':
    "ssn_Nodes sn1' h = Some node1'" "sameNode node1 node1'" by auto
  have tU: "ssn_tasks ?snU a = t1\<lparr>ti_Status := Pending\<rparr>" by (simp add: hU)
  have "ti_Pod (ssn_tasks ?snU a) = ti_Pod (ssn_tasks snA a)" using tU t1 tA by simp
  from add_then_remove[OF n(2) n1'(2) this] obtain n' where n':
    "RemoveTask node1' (ssn_tasks ?snU a) = Inr n'" "sameNode node n'" by blast
  have nmU: "ti_NodeName (ssn_tasks ?snU a) = h" using tU t1 by simp
  have nR: "ssn_Nodes (removeTaskFromNode ?snU a) = (ssn_Nodes sn1')(h \<mapsto> n')"
    using removeTaskFromNode_Some[of ?snU a node1' n'] nmU nU n1'(1) n'(1) by simp
  have un: "unallocate ok sn1' a x = fireEvent (DeallocateEvent a) (removeTaskFromNode ?snU a)"
    by (simp add: unallocate_def Let_def)
  show ?thesis
    unfolding un restored_fireEvent
  proof (rule restoredI)
    fix b assume nb: "ti_Status (ssn_tasks sn b) \<noteq> Pending"
    then have ba: "b \<noteq> a" using pend by auto
    then have "ssn_tasks snB b = ssn_tasks sn b" by (simp add: n(4) A3)
    moreover from this nb have "ssn_tasks sn1' b = ssn_tasks snB b"
      using restored_task_eq[OF r, of b] by simp
    ultimately show "ssn_tasks (removeTaskFromNode ?snU a) b = ssn_tasks sn b"
      using ba by (simp add: removeTaskFromNode_frame hU)
  next
    fix b
    show "\<exists>nn vr. ssn_tasks (removeTaskFromNode ?snU a) b =
            (ssn_tasks sn b)\<lparr>ti_NodeName := nn, ti_VolumeReady := vr\<rparr>"
    proof (cases "b = a")
      case True
      have "t1\<lparr>ti_Status := Pending\<rparr> = ?t\<lparr>ti_NodeName := h, ti_VolumeReady := vb\<rparr>"
        using pend by (simp add: t1)
      then show ?thesis using True by (auto simp: removeTaskFromNode_frame hU)
    next
      case False
      then have "ssn_tasks snB b = ssn_tasks sn b" by (simp add: n(4) A3)
      with restored_task_rel[OF r, of b] False show ?thesis
        by (simp add: removeTaskFromNode_frame hU)
    qed
  next
    fix j
    show "(ssn_Jobs (removeTaskFromNode ?snU a) j = None) = (ssn_Jobs sn j = None)"
      using restored_jobs[OF r, of j] n(5) A2[of j]
      by (simp add: removeTaskFromNode_frame updateStatusLogged_frame)
  next
    fix k
    show "rel_option sameNode (ssn_Nodes sn k) (ssn_Nodes (removeTaskFromNode ?snU a) k)"
    proof (cases "k = h")
      case True
      then show ?thesis using n(1) A1 n'(2) by (simp add: nR)
    next
      case False
      have "rel_option sameNode (ssn_Nodes snB k) (ssn_Nodes sn1' k)"
        using r by (rule restored_nodes)
      then show ?thesis using False by (simp add: nR n(3) A1)
    qed
  qed
qed

lemma Pipeline_undo:
  assumes el: "eligible ok (ssn s) (OpPipeline a h)"
    and p: "Pipeline ok le s a h = Return None s1"
    and r: "restored (ssn s1) sn1'"
  shows "restored (ssn s) (unpipeline ok sn1' a)" "operations s1 = operations s @ [OpPipeline a h]"
proof -
  from p obtain snA snB where f:
    "updateStatusInSession ok (ssn s) a Pipelined = Inr snA"
    "addTaskToNode le snA a h = Inr snB"
    "s1 = s\<lparr>ssn := fireEvent (AllocateEvent a) snB, operations := operations s @ [OpPipeline a h]\<rparr>"
    by (auto simp: Pipeline_def split: sum.splits)
  from f(3) show "operations s1 = operations s @ [OpPipeline a h]" by simp
  note u = updateStatusInSession_frame[OF f(1)]
  have A3: "ssn_tasks snA = (ssn_tasks (ssn s))(a := (ssn_tasks (ssn s) a)
              \<lparr>ti_VolumeReady := ti_VolumeReady (ssn_tasks (ssn s) a), ti_Status := Pipelined\<rparr>)"
    by (simp add: u(5))
  have r': "restored snB sn1'" using r f(3) by (simp add: restored_fireEvent)
  have "restored (ssn s) (unallocate ok sn1' a h)"
    by (rule undo_added[where sf = Pipelined and snA = snA and snB = snB and le = le and h = h,
          OF _ _ _ _ u(7) u(1) u(8) A3 f(2) r'])
       (use el in \<open>simp_all add: eligible_def\<close>)
  then show "restored (ssn s) (unpipeline ok sn1' a)"
    by (simp add: unallocate_def unpipeline_def)
qed

lemma Allocate_undo:
  assumes el: "eligible ok (ssn s) (OpAllocate a h)"
    and p: "Allocate ok le s a h = Return None s1"
    and r: "restored (ssn s1) sn1'"
  shows "restored (ssn s) (unallocate ok sn1' a h)" "operations s1 = operations s @ [OpAllocate a h]"
proof -
  let ?c = "CallAllocateVolumes (ssn_tasks (ssn s) a) h"
  let ?vb = "reply_allBound (ssn_cache (ssn s) (ssn_calls (ssn s)) ?c)"
  let ?sn0 = "(ssn s)\<lparr>ssn_calls := ssn_calls (ssn s) @ [?c],
                 ssn_tasks := (ssn_tasks (ssn s))(a := (ssn_tasks (ssn s) a)\<lparr>ti_VolumeReady := ?vb\<rparr>)\<rparr>"
  from p obtain snA snB where f:
    "updateStatusInSession ok ?sn0 a Allocated = Inr snA"
    "addTaskToNode le snA a h = Inr snB"
    "s1 = s\<lparr>ssn := fireEvent (AllocateEvent a) snB, operations := operations s @ [OpAllocate a h]\<rparr>"
    by (auto simp: Allocate_def callCache_def Let_def split: sum.splits option.splits)
  from f(3) show "operations s1 = operations s @ [OpAllocate a h]" by simp
  note u = updateStatusInSession_frame[OF f(1)]
  have A1: "ssn_Nodes snA = ssn_Nodes (ssn s)" using u(1) by simp
  have A2: "\<And>j. (ssn_Jobs snA j = None) = (ssn_Jobs (ssn s) j = None)" using u(8) by simp
  have A3: "ssn_tasks snA = (ssn_tasks (ssn s))(a := (ssn_tasks (ssn s) a)
              \<lparr>ti_VolumeReady := ?vb, ti_Status := Allocated\<rparr>)"
    by (simp add: u(5))
  have job: "ssn_Jobs (ssn s) (ti_Job (ssn_tasks (ssn s) a)) \<noteq> None" using u(7) by simp
  have r': "restored snB sn1'" using r f(3) by (simp add: restored_fireEvent)
  show "restored (ssn s) (unallocate ok sn1' a h)"
    by (rule undo_added[where sf = Allocated and snA = snA and snB = snB and le = le and h = h,
          OF _ _ _ _ job A1 A2 A3 f(2) r'])
       (use el in \<open>simp_all add: eligible_def\<close>)
qed

lemma updateTaskOnNode_cases:
  "updateTaskOnNode le sn a = Some sn1 \<Longrightarrow>
     (case ssn_Nodes sn (ti_NodeName (ssn_tasks sn a)) of
        None \<Rightarrow> sn1 = sn
      | Some node \<Rightarrow>
          (case map_of (ni_Tasks node) (PodKey (ti_Pod (ssn_tasks sn a))) of
             None \<Rightarrow> sn1 = sn
           | Some c \<Rightarrow> \<exists>node1 t1. UpdateTask le node (ssn_tasks sn a) = Inr (node1, t1) \<and>
                 sn1 = sn\<lparr>ssn_Nodes := (ssn_Nodes sn)(ti_NodeName (ssn_tasks sn a) \<mapsto> node1),
                         ssn_tasks := (ssn_tasks sn)(a := t1)\<rparr>))"
  by (auto simp: updateTaskOnNode_def UpdateTask_def RemoveTask_def Let_def
      split: option.splits sum.splits if_splits)

lemma updateTaskOnNode_noCopy:
  "ssn_Nodes sn (ti_NodeName (ssn_tasks sn a)) = Some node \<Longrightarrow>
   map_of (ni_Tasks node) (PodKey (ti_Pod (ssn_tasks sn a))) = None \<Longrightarrow>
   updateTaskOnNode le sn a = Some sn"
  by (simp add: updateTaskOnNode_def UpdateTask_def RemoveTask_def)

lemma updateTaskOnNode_Inr:
  "ssn_Nodes sn (ti_NodeName (ssn_tasks sn a)) = Some node \<Longrightarrow>
   UpdateTask le node (ssn_tasks sn a) = Inr (n', t') \<Longrightarrow>
   updateTaskOnNode le sn a =
     Some (sn\<lparr>ssn_Nodes := (ssn_Nodes sn)(ti_NodeName (ssn_tasks sn a) \<mapsto> n'),
              ssn_tasks := (ssn_tasks sn)(a := t')\<rparr>)"
  by (simp add: updateTaskOnNode_def)

lemma Evict_undo:
  assumes el: "eligible ok (ssn s) (OpEvict a reason)"
    and p: "Evict ok le s a reason = Return None s1"
    and r: "restored (ssn s1) sn1'"
  shows "\<exists>sn'. unevict ok le sn1' a reason = Some sn' \<and> restored (ssn s) sn'"
    and "operations s1 = operations s @ [OpEvict a reason]"
proof -
  let ?sn = "ssn s"
  let ?t = "ssn_tasks ?sn a"
  let ?nn = "ti_NodeName ?t"
  let ?snU = "updateStatusLogged ok ?sn a Releasing"
  from p obtain sn2 where f: "updateTaskOnNode le ?snU a = Some sn2"
    "s1 = s\<lparr>ssn := fireEvent (DeallocateEvent a) sn2, operations := operations s @ [OpEvict a reason]\<rparr>"
    by (auto simp: Evict_def Let_def split: option.splits)
  from f(2) show "operations s1 = operations s @ [OpEvict a reason]" by simp
  from el have run: "ti_Status ?t = Running" and idx: "indexedAt ?sn ?nn"
    and okj: "ssn_Jobs ?sn (ti_Job ?t) \<noteq> None \<Longrightarrow> ok Running Releasing \<and> ok Releasing Running"
    and cp: "\<And>node c. ssn_Nodes ?sn ?nn = Some node \<Longrightarrow>
               map_of (ni_Tasks node) (PodKey (ti_Pod ?t)) = Some c \<Longrightarrow>
               ti_Status c = Running \<and> ti_Resreq c = ti_Resreq ?t"
    by (auto simp: eligible_def Let_def split: option.splits)
  have tt: "?t\<lparr>ti_Status := Running\<rparr> = ?t" using run by simp
  \<comment> \<open>the status the forward update leaves\<close>
  define sfw where "sfw = (if ssn_Jobs ?sn (ti_Job ?t) = None then Running else Releasing)"
  have sfw: "sfw = Releasing \<or> sfw = Running" by (simp add: sfw_def)
  have hU: "ssn_tasks ?snU = (ssn_tasks ?sn)(a := ?t\<lparr>ti_Status := sfw\<rparr>)"
  proof (cases "ssn_Jobs ?sn (ti_Job ?t) = None")
    case True
    then have "?snU = ?sn" by (simp add: updateStatusLogged_unchanged)
    then show ?thesis using True tt by (simp add: sfw_def)
  next
    case False
    then have "ok (ti_Status ?t) Releasing" using okj run by simp
    from updateStatusLogged_sets[where ok = ok and sn = ?sn and a = a and st = Releasing, OF False this]
    show ?thesis using False by (auto simp: sfw_def)
  qed
  have nU: "ssn_Nodes ?snU = ssn_Nodes ?sn" by (simp add: updateStatusLogged_frame)
  have jU: "\<And>j. (ssn_Jobs ?snU j = None) = (ssn_Jobs ?sn j = None)"
    by (simp add: updateStatusLogged_frame)
  let ?tU = "?t\<lparr>ti_Status := sfw\<rparr>"
  have tU: "ssn_tasks ?snU a = ?tU" by (simp add: hU)
  have nnU: "ti_NodeName (ssn_tasks ?snU a) = ?nn" by (simp add: tU)
  note fc = updateTaskOnNode_cases[OF f(1), unfolded nnU nU]
  \<comment> \<open>the forward node update leaves the task object as it is\<close>
  have h2: "ssn_tasks sn2 = ssn_tasks ?snU" and j2: "ssn_Jobs sn2 = ssn_Jobs ?snU"
  proof -
    have "ssn_tasks sn2 = ssn_tasks ?snU \<and> ssn_Jobs sn2 = ssn_Jobs ?snU"
    proof (cases "ssn_Nodes ?sn ?nn")
      case None
      then show ?thesis using fc by simp
    next
      case (Some node)
      show ?thesis
      proof (cases "map_of (ni_Tasks node) (PodKey (ti_Pod (ssn_tasks ?snU a)))")
        case None
        then show ?thesis using fc Some by simp
      next
        case (Some c)
        with fc \<open>ssn_Nodes ?sn ?nn = Some node\<close> obtain node1 t1 where
          u: "UpdateTask le node (ssn_tasks ?snU a) = Inr (node1, t1)"
          "sn2 = ?snU\<lparr>ssn_Nodes := (ssn_Nodes ?sn)(?nn \<mapsto> node1),
                       ssn_tasks := (ssn_tasks ?snU)(a := t1)\<rparr>"
          by (auto simp: nnU)
        have "ni_Name node = ?nn" using idx \<open>ssn_Nodes ?sn ?nn = Some node\<close>
          by (simp add: indexedAt_def)
        then have "t1 = ssn_tasks ?snU a" using UpdateTask_task[OF u(1)] by (simp add: tU)
        then show ?thesis using u(2) by simp
      qed
    qed
    then show "ssn_tasks sn2 = ssn_tasks ?snU" and "ssn_Jobs sn2 = ssn_Jobs ?snU" by simp_all
  qed
  have r2: "restored sn2 sn1'" using r f(2) by (simp add: restored_fireEvent)
  have "ti_Status (ssn_tasks sn2 a) \<noteq> Pending" using sfw by (auto simp: h2 hU)
  from restored_task_eq[OF r2 this] have h1: "ssn_tasks sn1' a = ?tU" by (simp add: h2 hU)
  \<comment> \<open>the status update of the undo gives the task object back\<close>
  let ?snV = "updateStatusLogged ok sn1' a Running"
  have j1: "\<And>j. (ssn_Jobs sn1' j = None) = (ssn_Jobs ?sn j = None)"
    using restored_jobs[OF r2] j2 jU by simp
  have hV: "ssn_tasks ?snV = (ssn_tasks sn1')(a := ?t)"
  proof (cases "ssn_Jobs ?sn (ti_Job ?t) = None")
    case True
    then have "ssn_Jobs sn1' (ti_Job (ssn_tasks sn1' a)) = None" using j1 h1 by simp
    then have "?snV = sn1'" by (simp add: updateStatusLogged_unchanged)
    moreover have "ssn_tasks sn1' a = ?t" using h1 True tt by (simp add: sfw_def)
    ultimately show ?thesis by (simp add: fun_upd_idem)
  next
    case False
    then have jb: "ssn_Jobs sn1' (ti_Job (ssn_tasks sn1' a)) \<noteq> None" using j1 h1 by simp
    have "sfw = Releasing" using False by (simp add: sfw_def)
    then have okV: "ok (ti_Status (ssn_tasks sn1' a)) Running" using okj False h1 by simp
    from updateStatusLogged_sets[where ok = ok and sn = sn1' and a = a and st = Running, OF jb okV]
    show ?thesis using h1 tt by simp
  qed
  have nV: "ssn_Nodes ?snV = ssn_Nodes sn1'" by (simp add: updateStatusLogged_frame)
  have jV: "\<And>j. (ssn_Jobs ?snV j = None) = (ssn_Jobs ?sn j = None)"
    using j1 by (simp add: updateStatusLogged_frame)
  have tV: "ssn_tasks ?snV a = ?t" by (simp add: hV)
  \<comment> \<open>tasks and jobs of any session that has the store of \<open>?snV\<close>\<close>
  have tasks_ok: "\<And>b. ti_Status (ssn_tasks ?sn b) \<noteq> Pending \<Longrightarrow> ssn_tasks ?snV b = ssn_tasks ?sn b"
  proof -
    fix b assume nb: "ti_Status (ssn_tasks ?sn b) \<noteq> Pending"
    show "ssn_tasks ?snV b = ssn_tasks ?sn b"
    proof (cases "b = a")
      case True then show ?thesis by (simp add: hV)
    next
      case False
      then have e: "ssn_tasks sn2 b = ssn_tasks ?sn b" by (simp add: h2 hU)
      with nb restored_task_eq[OF r2, of b] False show ?thesis by (simp add: hV)
    qed
  qed
  have tasks_rel: "\<And>b. \<exists>nn vr. ssn_tasks ?snV b = (ssn_tasks ?sn b)\<lparr>ti_NodeName := nn, ti_VolumeReady := vr\<rparr>"
  proof -
    fix b
    show "\<exists>nn vr. ssn_tasks ?snV b = (ssn_tasks ?sn b)\<lparr>ti_NodeName := nn, ti_VolumeReady := vr\<rparr>"
    proof (cases "b = a")
      case True then show ?thesis using task_rel_refl[of ?t] by (simp add: hV)
    next
      case False
      then have e: "ssn_tasks sn2 b = ssn_tasks ?sn b" by (simp add: h2 hU)
      with restored_task_rel[OF r2, of b] False show ?thesis by (simp add: hV)
    qed
  qed
  \<comment> \<open>the node update of the undo\<close>
  have "\<exists>snW. updateTaskOnNode le ?snV a = Some snW \<and> restored ?sn snW"
  proof (cases "ssn_Nodes ?sn ?nn")
    case None
    then have "sn2 = ?snU" using fc by simp
    then have n2: "ssn_Nodes sn2 = ssn_Nodes ?sn" using nU by simp
    have "ssn_Nodes sn1' ?nn = None" using restored_node_None[OF r2] n2 None by simp
    then have "updateTaskOnNode le ?snV a = Some ?snV"
      by (intro updateTaskOnNode_absent) (simp add: tV nV)
    moreover have "restored ?sn ?snV"
      by (rule restoredI) (use tasks_ok tasks_rel jV restored_nodes[OF r2] n2 nV in simp_all)
    ultimately show ?thesis by blast
  next
    case (Some node)
    have nm: "ni_Name node = ?nn" using idx Some by (simp add: indexedAt_def)
    show ?thesis
    proof (cases "map_of (ni_Tasks node) (PodKey (ti_Pod ?t))")
      case None
      then have "sn2 = ?snU" using fc Some by (simp add: tU)
      then have n2: "ssn_Nodes sn2 = ssn_Nodes ?sn" using nU by simp
      from restored_node_Some[OF r2, of ?nn node] n2 Some obtain node' where
        n': "ssn_Nodes sn1' ?nn = Some node'" "sameNode node node'" by auto
      have "map_of (ni_Tasks node') (PodKey (ti_Pod ?t)) = None"
        using copiesAgree_lookup(1)[of node node'] n'(2) None by (simp add: sameNode_def)
      then have "updateTaskOnNode le ?snV a = Some ?snV"
        using n'(1) by (intro updateTaskOnNode_noCopy[where node = node']) (simp_all add: tV nV)
      moreover have "restored ?sn ?snV"
        by (rule restoredI) (use tasks_ok tasks_rel jV restored_nodes[OF r2] n2 nV in simp_all)
      ultimately show ?thesis by blast
    next
      case c: (Some c)
      with fc Some obtain node1 t1 where
        u: "UpdateTask le node ?tU = Inr (node1, t1)"
        "sn2 = ?snU\<lparr>ssn_Nodes := (ssn_Nodes ?sn)(?nn \<mapsto> node1),
                     ssn_tasks := (ssn_tasks ?snU)(a := t1)\<rparr>"
        by (auto simp: tU)
      have n2: "ssn_Nodes sn2 = (ssn_Nodes ?sn)(?nn \<mapsto> node1)" using u(2) nU by simp
      from restored_node_Some[OF r2, of ?nn node1] n2 obtain node1' where
        n1': "ssn_Nodes sn1' ?nn = Some node1'" "sameNode node1 node1'" by auto
      have cc: "ti_Status c = Running \<and> ti_Resreq c = ti_Resreq ?t" using cp[OF Some c] .
      have "\<exists>n' r. UpdateTask le node1' ?t = Inr (n', r) \<and> sameNode node n'"
        by (rule update_then_update[where t = ?tU and c = c and ?n1.0 = node1 and ?t1.0 = t1])
           (use c cc sfw u(1) n1'(2) run nm in simp_all)
      then obtain n' r' where u': "UpdateTask le node1' ?t = Inr (n', r')" "sameNode node n'"
        by blast
      have "ni_Name node1' = ?nn"
        using sameNode_fields[OF n1'(2)] UpdateTask_task[OF u(1)] nm
          sameNode_fields[OF u'(2)] u'(1)
        by (auto simp: UpdateTask_def dest!: RemoveTask_name AddTask_result(3) split: sum.splits)
      then have r't: "r' = ?t" using UpdateTask_task[OF u'(1)] by simp
      let ?snW = "?snV\<lparr>ssn_Nodes := (ssn_Nodes ?snV)(?nn \<mapsto> n'),
                       ssn_tasks := (ssn_tasks ?snV)(a := r')\<rparr>"
      have "updateTaskOnNode le ?snV a = Some ?snW"
        using updateTaskOnNode_Inr[of ?snV a node1' le n' r'] n1'(1) u'(1) by (simp add: tV nV)
      moreover have "restored ?sn ?snW"
      proof (rule restoredI)
        fix b assume "ti_Status (ssn_tasks ?sn b) \<noteq> Pending"
        then show "ssn_tasks ?snW b = ssn_tasks ?sn b" using tasks_ok[of b] r't by simp
      next
        fix b
        show "\<exists>nn vr. ssn_tasks ?snW b = (ssn_tasks ?sn b)\<lparr>ti_NodeName := nn, ti_VolumeReady := vr\<rparr>"
          using tasks_rel[of b] r't tV by (cases "b = a") simp_all
      next
        fix j show "(ssn_Jobs ?snW j = None) = (ssn_Jobs ?sn j = None)" using jV by simp
      next
        fix k
        show "rel_option sameNode (ssn_Nodes ?sn k) (ssn_Nodes ?snW k)"
        proof (cases "k = ?nn")
          case True then show ?thesis using Some u'(2) by simp
        next
          case False
          then show ?thesis using restored_nodes[OF r2, of k] n2 nV by simp
        qed
      qed
      ultimately show ?thesis by blast
    qed
  qed
  then obtain snW where w: "updateTaskOnNode le ?snV a = Some snW" "restored ?sn snW" by blast
  then have "unevict ok le sn1' a reason = Some (fireEvent (AllocateEvent a) snW)"
    by (simp add: unevict_def Let_def)
  moreover have "restored ?sn (fireEvent (AllocateEvent a) snW)"
    using w(2) by (simp add: restored_fireEvent)
  ultimately show "\<exists>sn'. unevict ok le sn1' a reason = Some sn' \<and> restored (ssn s) sn'" by blast
qed

lemma ex_performAll: "performAll validateAny (LessEqualOn []) exOps exStatement \<noteq> None"
  by (simp add: stmtdefs sessdefs exdefs)

lemma performAll_discard:
  "performAll ok le ops s = Some s1 \<Longrightarrow>
     operations s1 = operations s @ ops \<and>
     (\<exists>sn'. discardLoop ok le ops (ssn s1) = Some sn' \<and> restored (ssn s) sn')"
proof (induction ops arbitrary: s)
  case Nil
  then show ?case by (simp add: restored_refl)
next
  case (Cons op ops)
  from Cons.prems obtain s0 where
    el: "eligible ok (ssn s) op" and p: "perform ok le op s = Return None s0"
    and rest: "performAll ok le ops s0 = Some s1"
    by (auto split: if_splits run.splits option.splits)
  from Cons.IH[OF rest] obtain sn0' where ih:
    "operations s1 = operations s0 @ ops" "discardLoop ok le ops (ssn s1) = Some sn0'"
    "restored (ssn s0) sn0'"
    by blast
  have "operations s0 = operations s @ [op] \<and>
        (\<exists>sn'. discardOp ok le op sn0' = Some sn' \<and> restored (ssn s) sn')"
  proof (cases op)
    case (OpEvict a reason)
    then show ?thesis
      using Evict_undo[of ok s a reason le s0 sn0'] el p ih(3)
      by (simp add: perform_def discardOp_def)
  next
    case (OpPipeline a h)
    then show ?thesis
      using Pipeline_undo[of ok s a h le s0 sn0'] el p ih(3)
      by (simp add: perform_def discardOp_def)
  next
    case (OpAllocate a h)
    then show ?thesis
      using Allocate_undo[of ok s a h le s0 sn0'] el p ih(3)
      by (simp add: perform_def discardOp_def)
  qed
  then show ?case using ih(1,2) by auto
qed

lemma restored_vectors:
  "restored sn sn' \<Longrightarrow>
     map_option nodeVectors (ssn_Nodes sn' k) = map_option nodeVectors (ssn_Nodes sn k)"
  using restored_nodes[of sn sn' k]
  by (cases "ssn_Nodes sn k"; cases "ssn_Nodes sn' k") (auto dest: sameNode_fields)

text \<open>
  C1 (as amended). \<^verbatim>\<open>Discard\<close> undoes the journal from its last record to its first. Let a
  statement with an empty journal perform a sequence of operations that all return nil,
  each in the situation described by \<open>eligible\<close> (a Pending task is allocated or
  pipelined, a Running task is evicted). Then the journal holds these operations,
  \<^verbatim>\<open>Discard\<close> returns, every task has the status it had before the first operation, and
  every node has the Idle, Used, Releasing and Pipelined vectors it had before.
\<close>

theorem Discard_restores:
  assumes "operations s = []" and "performAll ok le ops s = Some s1"
  shows "discardLoop ok le (journal @ [op]) sn =
           (case discardOp ok le op sn of
              None \<Rightarrow> None
            | Some sn1 \<Rightarrow> discardLoop ok le journal sn1) \<and>
         operations s1 = ops \<and>
         (\<exists>s2. Discard ok le s1 = Some s2 \<and>
            (\<forall>a. ti_Status (ssn_tasks (ssn s2) a) = ti_Status (ssn_tasks (ssn s) a)) \<and>
            (\<forall>k. map_option nodeVectors (ssn_Nodes (ssn s2) k)
                   = map_option nodeVectors (ssn_Nodes (ssn s) k)))"
proof -
  from performAll_discard[OF assms(2)] assms(1) obtain sn' where d:
    "operations s1 = ops" "discardLoop ok le ops (ssn s1) = Some sn'" "restored (ssn s) sn'"
    by auto
  then have "Discard ok le s1 = Some (s1\<lparr>ssn := sn'\<rparr>)" by (simp add: Discard_def)
  moreover have "\<forall>a. ti_Status (ssn_tasks sn' a) = ti_Status (ssn_tasks (ssn s) a)"
    using restored_status[OF d(3)] by simp
  moreover have "\<forall>k. map_option nodeVectors (ssn_Nodes sn' k)
                   = map_option nodeVectors (ssn_Nodes (ssn s) k)"
    using restored_vectors[OF d(3)] by simp
  ultimately show ?thesis using d(1) by (simp add: discardLoop_snoc)
qed

theorem Discard_restores_witness:
  "operations exStatement = [] \<and>
   performAll validateAny (LessEqualOn []) exOps exStatement \<noteq> None \<and>
   (case Option.bind (performAll validateAny (LessEqualOn []) exOps exStatement)
           (Discard validateAny (LessEqualOn [])) of
      None \<Rightarrow> False
    | Some s2 \<Rightarrow>
        (\<forall>a. ti_Status (ssn_tasks (ssn s2) a) = ti_Status (ssn_tasks exSession a)) \<and>
        map_option nodeVectors (ssn_Nodes (ssn s2) ''n1'') = Some (nodeVectors exNode1))"
proof -
  have e: "operations exStatement = []" by (simp add: exStatement_def)
  obtain s1 where p: "performAll validateAny (LessEqualOn []) exOps exStatement = Some s1"
    using ex_performAll by blast
  from Discard_restores[OF e p] obtain s2 where d:
    "Discard validateAny (LessEqualOn []) s1 = Some s2"
    "\<forall>a. ti_Status (ssn_tasks (ssn s2) a) = ti_Status (ssn_tasks (ssn exStatement) a)"
    "\<forall>k. map_option nodeVectors (ssn_Nodes (ssn s2) k)
           = map_option nodeVectors (ssn_Nodes (ssn exStatement) k)"
    by blast
  have "map_option nodeVectors (ssn_Nodes (ssn s2) ''n1'') = Some (nodeVectors exNode1)"
    using d(3) by (simp add: exStatement_def exSession_def)
  then show ?thesis using e p d(1,2) by (simp add: exStatement_def)
qed

text \<open>
  The claim C1 as it was stated fails: a Bound task that is evicted is Running, not Bound,
  after \<^verbatim>\<open>Discard\<close>.
\<close>

theorem Discard_status_counterexample:
  "ti_Status (ssn_tasks (ssn exBoundStatement) 0) = Bound \<and>
   map_option (\<lambda>s2. ti_Status (ssn_tasks (ssn s2) 0))
     (Option.bind (returned (Evict validateAny (LessEqualOn []) exBoundStatement 0 ''preempted''))
        (Discard validateAny (LessEqualOn []))) = Some Running"
  by (simp add: returned_def exBoundStatement_def Discard_def discardOp_def unevict_def
        stmtdefs sessdefs exdefs)


section \<open>Gang plugin: victims and MinAvailable\<close>

lemma sint_pred:
  fixes x y :: "32 word"
  assumes "y <s x"
  shows "sint (x - 1) = sint x - 1"
proof -
  have lo: "- (2 ^ 31) \<le> sint y" using sint_ge[of y] by simp
  have hi: "sint x < 2 ^ 31" using sint_lt[of x] by simp
  have "sint y < sint x" using assms by (simp add: word_sless_alt)
  then have "- (2 ^ 31) \<le> sint x - 1" "sint x - 1 < 2 ^ 31" using lo hi by auto
  then show ?thesis
    by (simp add: sint_word_ariths signed_take_bit_int_eq_self)
qed

lemma victimsOfJob_snoc:
  "victimsOfJob sn u (vs @ [p]) =
     victimsOfJob sn u vs +
       (if map_option ji_UID (ssn_Jobs sn (ti_Job (ssn_tasks sn p))) = Some u then 1 else 0)"
  by (simp add: victimsOfJob_def)

lemma gangVictims_inv:
  assumes idx: "\<forall>id job. ssn_Jobs sn id = Some job \<longrightarrow> ji_UID job = id"
  shows "gangVictims sn ps vs m = Some res \<Longrightarrow> gangInv sn vs m \<Longrightarrow>
           \<exists>m'. gangInv sn res m' \<and> (\<forall>u. m u \<noteq> None \<longrightarrow> m' u \<noteq> None) \<and>
                (\<forall>p \<in> set ps. m' (ti_Job (ssn_tasks sn p)) \<noteq> None) \<and>
                set res \<subseteq> set vs \<union> set ps"
proof (induction ps arbitrary: vs m)
  case Nil
  then show ?case by auto
next
  case (Cons p ps)
  let ?id = "ti_Job (ssn_tasks sn p)"
  from Cons.prems(1) obtain job where j: "ssn_Jobs sn ?id = Some job"
    by (auto split: option.splits)
  have uid: "ji_UID job = ?id" using idx j by blast
  define m1 where "m1 = (case m ?id of None \<Rightarrow> m(?id \<mapsto> ReadyTaskNum (ssn_tasks sn) job) | Some n \<Rightarrow> m)"
  define occ where "occ = (case m1 ?id of None \<Rightarrow> 0 | Some n \<Rightarrow> n)"
  have step: "gangVictims sn (p # ps) vs m =
      (if ji_MinAvailable job <s occ then gangVictims sn ps (vs @ [p]) (m1(?id \<mapsto> occ - 1))
       else gangVictims sn ps vs m1)"
    using j by (cases "m ?id") (simp_all add: m1_def occ_def Let_def uid)
  have m1id: "m1 ?id = Some occ" by (auto simp: m1_def occ_def split: option.splits)
  have m1o: "\<And>u. u \<noteq> ?id \<Longrightarrow> m1 u = m u" by (auto simp: m1_def split: option.splits)
  have m1m: "\<And>u. m u \<noteq> None \<Longrightarrow> m1 u \<noteq> None" by (auto simp: m1_def split: option.splits)
  have m1s: "\<And>u n. m u = Some n \<Longrightarrow> m1 u = Some n" by (auto simp: m1_def split: option.splits)
  have m1n: "m ?id = None \<Longrightarrow> occ = ReadyTaskNum (ssn_tasks sn) job"
    using m1id by (simp add: m1_def)
  note inv = Cons.prems(2)[unfolded gangInv_def]
  have inv1: "gangInv sn vs m1"
    unfolding gangInv_def
  proof (intro conjI allI impI)
    fix u assume "m1 u = None"
    then have "m u = None" using m1m by blast
    then show "victimsOfJob sn u vs = 0" using inv by blast
  next
    fix u o' assume a: "m1 u = Some o'"
    show "\<exists>job. ssn_Jobs sn u = Some job \<and>
           sint o' = sint (ReadyTaskNum (ssn_tasks sn) job) - int (victimsOfJob sn u vs) \<and>
           (0 < victimsOfJob sn u vs \<longrightarrow> sint (ji_MinAvailable job) \<le> sint o')"
    proof (cases "m u")
      case None
      then have u: "u = ?id" using a m1o by (cases "u = ?id") auto
      then have "o' = ReadyTaskNum (ssn_tasks sn) job" using m1n None a m1id by simp
      moreover have "victimsOfJob sn u vs = 0" using inv None by blast
      ultimately show ?thesis using j u by simp
    next
      case (Some n)
      then have "o' = n" using m1s a by fastforce
      then show ?thesis using inv Some by blast
    qed
  qed
  note i1 = inv1[unfolded gangInv_def]
  from i1 m1id obtain job' where jb: "ssn_Jobs sn ?id = Some job'"
      "sint occ = sint (ReadyTaskNum (ssn_tasks sn) job') - int (victimsOfJob sn ?id vs)"
    by blast
  then have jj: "job' = job" using j by simp
  show ?case
  proof (cases "ji_MinAvailable job <s occ")
    case True
    then have rec: "gangVictims sn ps (vs @ [p]) (m1(?id \<mapsto> occ - 1)) = Some res"
      using Cons.prems(1) by (simp only: step if_True)
    have sp: "sint (occ - 1) = sint occ - 1" using sint_pred[OF True] .
    have lt: "sint (ji_MinAvailable job) < sint occ" using True by (simp add: word_sless_alt)
    have vid: "victimsOfJob sn ?id (vs @ [p]) = victimsOfJob sn ?id vs + 1"
      using j uid by (simp add: victimsOfJob_snoc)
    have vo: "\<And>u. u \<noteq> ?id \<Longrightarrow> victimsOfJob sn u (vs @ [p]) = victimsOfJob sn u vs"
      using j uid by (simp add: victimsOfJob_snoc)
    have inv2: "gangInv sn (vs @ [p]) (m1(?id \<mapsto> occ - 1))"
      unfolding gangInv_def
    proof (intro conjI allI impI)
      fix u assume "(m1(?id \<mapsto> occ - 1)) u = None"
      then have "u \<noteq> ?id" "m1 u = None" by (auto split: if_splits)
      then show "victimsOfJob sn u (vs @ [p]) = 0" using i1 vo by simp
    next
      fix u o' assume a: "(m1(?id \<mapsto> occ - 1)) u = Some o'"
      show "\<exists>job. ssn_Jobs sn u = Some job \<and>
           sint o' = sint (ReadyTaskNum (ssn_tasks sn) job) - int (victimsOfJob sn u (vs @ [p])) \<and>
           (0 < victimsOfJob sn u (vs @ [p]) \<longrightarrow> sint (ji_MinAvailable job) \<le> sint o')"
      proof (cases "u = ?id")
        case True
        then have "o' = occ - 1" using a by simp
        then show ?thesis using True j jb jj sp lt vid by simp
      next
        case False
        then have "m1 u = Some o'" using a by simp
        then show ?thesis using i1 vo[OF False] by simp
      qed
    qed
    from Cons.IH[OF rec inv2] obtain m' where m':
      "gangInv sn res m'" "\<forall>u. (m1(?id \<mapsto> occ - 1)) u \<noteq> None \<longrightarrow> m' u \<noteq> None"
      "\<forall>p \<in> set ps. m' (ti_Job (ssn_tasks sn p)) \<noteq> None" "set res \<subseteq> set (vs @ [p]) \<union> set ps"
      by blast
    have "\<forall>u. m u \<noteq> None \<longrightarrow> m' u \<noteq> None" using m'(2) m1m by auto
    moreover have "m' ?id \<noteq> None" using m'(2) by auto
    ultimately show ?thesis using m' by auto
  next
    case False
    then have rec: "gangVictims sn ps vs m1 = Some res"
      using Cons.prems(1) by (simp only: step if_False)
    from Cons.IH[OF rec inv1] obtain m' where m':
      "gangInv sn res m'" "\<forall>u. m1 u \<noteq> None \<longrightarrow> m' u \<noteq> None"
      "\<forall>p \<in> set ps. m' (ti_Job (ssn_tasks sn p)) \<noteq> None" "set res \<subseteq> set vs \<union> set ps"
      by blast
    have "\<forall>u. m u \<noteq> None \<longrightarrow> m' u \<noteq> None" using m'(2) m1m by auto
    moreover have "m' ?id \<noteq> None" using m'(2) m1id by auto
    ultimately show ?thesis using m' by auto
  qed
qed

text \<open>
  C3 (as amended). Let the session's job index hold every job under its own UID, and let
  \<^verbatim>\<open>preemptableFn\<close> return the victims for a list of preemptees (the same function is
  registered as the reclaimable function). Then for the job of every candidate,
  \<^verbatim>\<open>ReadyTaskNum\<close> minus the number of the job's victims is at least the smaller of
  \<^verbatim>\<open>ReadyTaskNum\<close> and \<^verbatim>\<open>MinAvailable\<close>, and at least \<^verbatim>\<open>MinAvailable\<close> whenever the job has a
  victim at all: the victims push no job below \<^verbatim>\<open>MinAvailable\<close>, and a job that is below it
  already loses no task. Every victim is one of the preemptees.
\<close>

theorem gang_keeps_MinAvailable:
  assumes idx: "\<forall>id job. ssn_Jobs sn id = Some job \<longrightarrow> ji_UID job = id"
    and res: "preemptableFn sn preemptor preemptees = Some victims"
    and c: "c \<in> set preemptees"
    and j: "ssn_Jobs sn (ti_Job (ssn_tasks sn c)) = Some job"
  shows "min (sint (ReadyTaskNum (ssn_tasks sn) job)) (sint (ji_MinAvailable job))
           \<le> sint (ReadyTaskNum (ssn_tasks sn) job) - int (victimsOfJob sn (ji_UID job) victims) \<and>
         (0 < victimsOfJob sn (ji_UID job) victims \<longrightarrow>
            sint (ji_MinAvailable job)
              \<le> sint (ReadyTaskNum (ssn_tasks sn) job) - int (victimsOfJob sn (ji_UID job) victims)) \<and>
         set victims \<subseteq> set preemptees"
proof -
  have i0: "gangInv sn [] Map.empty" by (simp add: gangInv_def victimsOfJob_def)
  from gangVictims_inv[OF idx res[unfolded preemptableFn_def] i0] obtain m' where m':
    "gangInv sn victims m'" "\<forall>p \<in> set preemptees. m' (ti_Job (ssn_tasks sn p)) \<noteq> None"
    "set victims \<subseteq> set preemptees"
    by auto
  have uid: "ji_UID job = ti_Job (ssn_tasks sn c)" using idx j by blast
  from m'(2) c obtain occ where o: "m' (ti_Job (ssn_tasks sn c)) = Some occ" by auto
  from m'(1)[unfolded gangInv_def] o obtain job' where
    "ssn_Jobs sn (ti_Job (ssn_tasks sn c)) = Some job'"
    "sint occ = sint (ReadyTaskNum (ssn_tasks sn) job')
                  - int (victimsOfJob sn (ti_Job (ssn_tasks sn c)) victims)"
    "0 < victimsOfJob sn (ti_Job (ssn_tasks sn c)) victims \<longrightarrow>
       sint (ji_MinAvailable job') \<le> sint occ"
    by blast
  with j have
    e: "sint occ = sint (ReadyTaskNum (ssn_tasks sn) job) - int (victimsOfJob sn (ji_UID job) victims)"
    and g: "0 < victimsOfJob sn (ji_UID job) victims \<longrightarrow> sint (ji_MinAvailable job) \<le> sint occ"
    by (simp_all add: uid)
  show ?thesis using e g m'(3) by (cases "victimsOfJob sn (ji_UID job) victims = 0") auto
qed

lemmas gangdefs = preemptableFn_def ReadyTaskNum_def readyStatus_def victimsOfJob_def
  word_sless_alt Let_def

lemma ex_gang: "preemptableFn exGangSession 9 [0, 1, 2] = Some [0]"
  by (simp add: exGangSession_def gangdefs sessdefs exdefs)

theorem gang_keeps_MinAvailable_witness:
  "preemptableFn exGangSession 9 [0, 1, 2] = Some [0] \<and>
   ssn_Jobs exGangSession (ti_Job (ssn_tasks exGangSession 1)) = Some exJob \<and>
   sint (ReadyTaskNum (ssn_tasks exGangSession) exJob) = 3 \<and>
   sint (ji_MinAvailable exJob) = 2 \<and>
   victimsOfJob exGangSession ''j1'' [0] = 1 \<and>
   sint (ji_MinAvailable exJob)
     \<le> sint (ReadyTaskNum (ssn_tasks exGangSession) exJob) - int (victimsOfJob exGangSession ''j1'' [0])"
proof -
  have idx: "\<forall>id job. ssn_Jobs exGangSession id = Some job \<longrightarrow> ji_UID job = id"
    by (simp add: exGangSession_def sessdefs)
  have c: "(1::nat) \<in> set [0, 1, 2]" by simp
  have j: "ssn_Jobs exGangSession (ti_Job (ssn_tasks exGangSession 1)) = Some exJob"
    by (simp add: exGangSession_def exSession_def exTask_def)
  have v: "sint (ReadyTaskNum (ssn_tasks exGangSession) exJob) = 3"
     "sint (ji_MinAvailable exJob) = 2" "victimsOfJob exGangSession ''j1'' [0] = 1"
     "ji_UID exJob = ''j1''"
    by (simp_all add: exGangSession_def gangdefs sessdefs exdefs)
  from gang_keeps_MinAvailable[OF idx ex_gang c j] j v ex_gang
  show ?thesis by simp
qed

text \<open>
  A job that has fewer ready tasks than \<^verbatim>\<open>MinAvailable\<close> before the call (here one ready task,
  \<^verbatim>\<open>MinAvailable\<close> two) gets no victim, and its \<^verbatim>\<open>ReadyTaskNum\<close> minus its victims is below
  \<^verbatim>\<open>MinAvailable\<close>.
\<close>

theorem gang_below_MinAvailable_counterexample:
  "preemptableFn exSession 9 [0] = Some [] \<and>
   ssn_Jobs exSession (ti_Job (ssn_tasks exSession 0)) = Some exJob \<and>
   \<not> sint (ji_MinAvailable exJob)
       \<le> sint (ReadyTaskNum (ssn_tasks exSession) exJob) - int (victimsOfJob exSession ''j1'' [])"
  by (simp add: gangdefs sessdefs exdefs)

section \<open>Scheduler cache: Bind\<close>

lemma UpdateTaskStatus_Inr:
  "ok (ti_Status (st a)) s \<Longrightarrow>
     UpdateTaskStatus ok st job a s =
       Inr (st(a := (st a)\<lparr>ti_Status := s\<rparr>),
            job\<lparr>ji_Tasks := AList.update (ti_UID (st a)) a (ji_Tasks job)\<rparr>)"
  by (simp add: UpdateTaskStatus_def)

lemma UpdateTaskStatus_Inl:
  "\<not> ok (ti_Status (st a)) s \<Longrightarrow> UpdateTaskStatus ok st job a s = Inl InvalidStatusUpdate"
  by (simp add: UpdateTaskStatus_def)

lemma findJobAndTask_Inr:
  "findJobAndTask sc taskInfo = Inr (job, a) \<Longrightarrow>
     map_of (sc_Jobs sc) (ti_Job taskInfo) = Some job \<and> map_of (ji_Tasks job) (ti_UID taskInfo) = Some a"
  by (auto simp: findJobAndTask_def split: option.splits)

text \<open>
  C4 (as amended). \<^verbatim>\<open>Bind\<close> has found the job and the task (whose UID is the one asked
  for) and the node, the job accepts the update to Binding, and \<^verbatim>\<open>AddTask\<close> of the Binding
  task fails. Then \<^verbatim>\<open>Bind\<close> returns the error of \<^verbatim>\<open>AddTask\<close>. If the job accepts the update
  back to the original status, the cache is the one before the call: the task has its
  original status, the job, the node and the resync queue are unchanged, and nothing is
  enqueued. Only if the job refuses that update, the task stays Binding and is appended to
  the resync queue, everything else unchanged.
\<close>

theorem Bind_AddTask_failure:
  assumes f: "findJobAndTask sc taskInfo = Inr (job, a)"
    and n: "map_of (sc_Nodes sc) hostname = Some node"
    and u: "ok (ti_Status (sc_tasks sc a)) Binding"
    and x: "AddTask le node ((sc_tasks sc a)\<lparr>ti_Status := Binding\<rparr>) = Inl err"
    and wf: "ti_UID (sc_tasks sc a) = ti_UID taskInfo"
  shows "Bind ok le sc taskInfo hostname =
           (if ok Binding (ti_Status (sc_tasks sc a)) then (Some err, sc)
            else (Some err,
                  sc\<lparr>sc_tasks := (sc_tasks sc)(a := (sc_tasks sc a)\<lparr>ti_Status := Binding\<rparr>),
                     sc_errTasks := sc_errTasks sc @ [a]\<rparr>))"
proof -
  note fj = findJobAndTask_Inr[OF f]
  let ?t = "sc_tasks sc a"
  let ?st1 = "(sc_tasks sc)(a := ?t\<lparr>ti_Status := Binding\<rparr>)"
  have tasks: "AList.update (ti_UID ?t) a (ji_Tasks job) = ji_Tasks job"
    using fj wf by (simp add: update_triv)
  have job1: "job\<lparr>ji_Tasks := AList.update (ti_UID ?t) a (ji_Tasks job)\<rparr> = job"
    by (simp add: tasks)
  have jobs: "AList.update (ti_Job taskInfo) job (sc_Jobs sc) = sc_Jobs sc"
    using fj by (simp add: update_triv)
  have u1: "UpdateTaskStatus ok (sc_tasks sc) job a Binding = Inr (?st1, job)"
    using UpdateTaskStatus_Inr[where ok = ok and st = "sc_tasks sc" and a = a and s = Binding and job = job]
      u job1 by simp
  have t1: "?st1 a = ?t\<lparr>ti_Status := Binding\<rparr>" by simp
  show ?thesis
  proof (cases "ok Binding (ti_Status ?t)")
    case True
    then have "ok (ti_Status (?st1 a)) (ti_Status ?t)" by simp
    with UpdateTaskStatus_Inr[where ok = ok and st = ?st1 and a = a and s = "ti_Status ?t" and job = job]
    have u2: "UpdateTaskStatus ok ?st1 job a (ti_Status ?t) = Inr (sc_tasks sc, job)"
      using tasks by simp
    show ?thesis
      using True by (simp add: Bind_def f n u1 x u2 jobs Let_def)
  next
    case False
    then have "\<not> ok (ti_Status (?st1 a)) (ti_Status ?t)" by simp
    with UpdateTaskStatus_Inl[where ok = ok and st = ?st1 and a = a and s = "ti_Status ?t" and job = job]
    have u2: "UpdateTaskStatus ok ?st1 job a (ti_Status ?t) = Inl InvalidStatusUpdate" by simp
    show ?thesis
      using False by (simp add: Bind_def f n u1 x u2 jobs Let_def resyncTask_def)
  qed
qed

lemmas cachedefs = exSchedulerCache_def exBusyNode_def exTinyV1Node_def exDownNode_def exQueue_def
  exStore_def exJob_def

lemma ex_find: "findJobAndTask exSchedulerCache (exTask ''t3'' Pending) = Inr (exJob, 2)"
  by (simp add: findJobAndTask_def cachedefs exTask_def)

lemma ex_add:
  "AddTask (LessEqualOn []) exBusyNode ((sc_tasks exSchedulerCache 2)\<lparr>ti_Status := Binding\<rparr>)
     = Inl SelectedNodeNotReady"
  by (simp add: AddTask_def allocateIdleResource_def Clone_ti_def Clone_def cachedefs exdefs
      word_sle_eq Let_def)

theorem Bind_AddTask_failure_witness:
  "findJobAndTask exSchedulerCache (exTask ''t3'' Pending) = Inr (exJob, 2) \<and>
   map_of (sc_Nodes exSchedulerCache) ''n1'' = Some exBusyNode \<and>
   AddTask (LessEqualOn []) exBusyNode ((sc_tasks exSchedulerCache 2)\<lparr>ti_Status := Binding\<rparr>)
     = Inl SelectedNodeNotReady \<and>
   Bind validateAny (LessEqualOn []) exSchedulerCache (exTask ''t3'' Pending) ''n1''
     = (Some SelectedNodeNotReady, exSchedulerCache) \<and>
   Bind validateForward (LessEqualOn []) exSchedulerCache (exTask ''t3'' Pending) ''n1''
     = (Some SelectedNodeNotReady,
        exSchedulerCache\<lparr>sc_tasks := exStore(2 := exTask ''t3'' Binding), sc_errTasks := [2]\<rparr>)"
proof -
  have n: "map_of (sc_Nodes exSchedulerCache) ''n1'' = Some exBusyNode"
    by (simp add: exSchedulerCache_def)
  have t: "sc_tasks exSchedulerCache 2 = exTask ''t3'' Pending"
    "sc_tasks exSchedulerCache = exStore" "sc_errTasks exSchedulerCache = []"
    "exStore 2 = exTask ''t3'' Pending"
    by (simp_all add: exSchedulerCache_def exStore_def)
  have wf: "ti_UID (sc_tasks exSchedulerCache 2) = ti_UID (exTask ''t3'' Pending)"
    by (simp add: t(1))
  have s: "(exTask ''t3'' Pending)\<lparr>ti_Status := Binding\<rparr> = exTask ''t3'' Binding"
    by (simp add: exTask_def)
  have u: "validateAny (ti_Status (sc_tasks exSchedulerCache 2)) Binding"
    "validateAny Binding (ti_Status (sc_tasks exSchedulerCache 2))"
    by (simp_all add: validateAny_def)
  have u': "validateForward (ti_Status (sc_tasks exSchedulerCache 2)) Binding"
    "\<not> validateForward Binding (ti_Status (sc_tasks exSchedulerCache 2))"
    by (simp_all add: validateForward_def t(1) exTask_def)
  have b1: "Bind validateAny (LessEqualOn []) exSchedulerCache (exTask ''t3'' Pending) ''n1''
     = (Some SelectedNodeNotReady, exSchedulerCache)"
    using Bind_AddTask_failure[where ok = validateAny, OF ex_find n u(1) ex_add wf] u(2) by simp
  have b2: "Bind validateForward (LessEqualOn []) exSchedulerCache (exTask ''t3'' Pending) ''n1''
     = (Some SelectedNodeNotReady,
        exSchedulerCache\<lparr>sc_tasks := exStore(2 := exTask ''t3'' Binding), sc_errTasks := [2]\<rparr>)"
    using Bind_AddTask_failure[where ok = validateForward, OF ex_find n u'(1) ex_add wf] u'(2)
    by (simp add: t s)
  from ex_find n ex_add b1 b2 show ?thesis by blast
qed

text \<open>
  \<^verbatim>\<open>AddTask\<close> fails on a node without idle resources, \<^verbatim>\<open>Bind\<close> returns its error, and the
  resync queue is empty afterwards.
\<close>

theorem Bind_no_resync_counterexample:
  "AddTask (LessEqualOn []) exBusyNode ((sc_tasks exSchedulerCache 2)\<lparr>ti_Status := Binding\<rparr>)
     = Inl SelectedNodeNotReady \<and>
   fst (Bind validateAny (LessEqualOn []) exSchedulerCache (exTask ''t3'' Pending) ''n1'')
     = Some SelectedNodeNotReady \<and>
   sc_errTasks (snd (Bind validateAny (LessEqualOn []) exSchedulerCache (exTask ''t3'' Pending) ''n1''))
     = []"
proof -
  have u1: "UpdateTaskStatus validateAny (sc_tasks exSchedulerCache) exJob 2 Binding
              = Inr ((sc_tasks exSchedulerCache)(2 := (sc_tasks exSchedulerCache 2)\<lparr>ti_Status := Binding\<rparr>),
                     exJob)"
    by (simp add: UpdateTaskStatus_def validateAny_def cachedefs exTask_def)
  have n: "map_of (sc_Nodes exSchedulerCache) ''n1'' = Some exBusyNode"
    by (simp add: exSchedulerCache_def)
  have e: "sc_errTasks exSchedulerCache = []" by (simp add: exSchedulerCache_def)
  have b: "Bind validateAny (LessEqualOn []) exSchedulerCache (exTask ''t3'' Pending) ''n1''
             = (Some SelectedNodeNotReady,
                snd (Bind validateAny (LessEqualOn []) exSchedulerCache (exTask ''t3'' Pending) ''n1''))
           \<and> sc_errTasks (snd (Bind validateAny (LessEqualOn []) exSchedulerCache (exTask ''t3'' Pending) ''n1'')) = []"
    by (simp add: Bind_def ex_find n u1 ex_add Let_def UpdateTaskStatus_def validateAny_def e)
  then have "fst (Bind validateAny (LessEqualOn []) exSchedulerCache (exTask ''t3'' Pending) ''n1'')
     = Some SelectedNodeNotReady" by (metis fst_conv)
  with b ex_add show ?thesis by blast
qed

section \<open>Scheduler cache: Snapshot\<close>














end
